theory Spec2Isabelle
  imports Complex_Main
begin

section \<open>Values exchanged with the inference API\<close>

text \<open>
  The generator store (\<^verbatim>\<open>useGeneratorStore\<close>) talks to a remote HTTP JSON API.
  A parsed body has the TypeScript type \<^verbatim>\<open>any\<close>, so it is embedded as a datatype of
  JavaScript values: the JSON constructors and \<^verbatim>\<open>undefined\<close>, which a property read
  of an absent key yields. An object is the list of its own enumerable properties in
  enumeration order, each key occurring once.
\<close>

datatype jsval =
    JUndefined
  | JNull
  | JBool bool
  | JNum real
  | JStr string
  | JArr "jsval list"
  | JObj "(string \<times> jsval) list"

text \<open>
  What an \<^verbatim>\<open>async\<close> function can reject with: \<^verbatim>\<open>fetch\<close> rejects on a network
  failure, \<^verbatim>\<open>response.json()\<close> on a body that is not JSON, and a property read of
  \<^verbatim>\<open>null\<close> or \<^verbatim>\<open>undefined\<close> throws a TypeError. \<open>OutsideDeclaredType\<close> marks a
  body that passed validation but is not of the type the source declares for it.
\<close>

datatype exn = TypeError | NetworkError | SyntaxError | OutsideDeclaredType

datatype 'a outcome = Throw exn | Return 'a

text \<open>JavaScript truthiness (a parsed JSON number is never NaN).\<close>

fun truthy :: "jsval \<Rightarrow> bool" where
  "truthy JUndefined = False"
| "truthy JNull = False"
| "truthy (JBool b) = b"
| "truthy (JNum r) = (r \<noteq> 0)"
| "truthy (JStr s) = (s \<noteq> [])"
| "truthy (JArr xs) = True"
| "truthy (JObj kvs) = True"

text \<open>
  The property read \<^verbatim>\<open>v.k\<close> for the keys this module reads (none of them is a
  built-in property of a string, an array or a number).
\<close>

fun getProp :: "jsval \<Rightarrow> string \<Rightarrow> exn + jsval" where
  "getProp JUndefined k = Inl TypeError"
| "getProp JNull k = Inl TypeError"
| "getProp (JObj kvs) k = Inr (case map_of kvs k of None \<Rightarrow> JUndefined | Some v \<Rightarrow> v)"
| "getProp v k = Inr JUndefined"

text \<open>Optional chaining \<^verbatim>\<open>v?.k\<close>.\<close>

definition getPropOpt :: "jsval \<Rightarrow> string \<Rightarrow> jsval" where
  "getPropOpt v k = (case getProp v k of Inl e \<Rightarrow> JUndefined | Inr w \<Rightarrow> w)"

fun joinWith :: "string \<Rightarrow> string list \<Rightarrow> string" where
  "joinWith sep [] = []"
| "joinWith sep [x] = x"
| "joinWith sep (x # y # ys) = x @ sep @ joinWith sep (y # ys)"

text \<open>
  \<^verbatim>\<open>ToString\<close>, as a template literal applies it. The decimal form of a number is a
  parameter \<open>num\<close> (\<^verbatim>\<open>Number.prototype.toString\<close>). An object prints through
  \<^verbatim>\<open>Object.prototype.toString\<close>; an object that carries a key \<^verbatim>\<open>toString\<close> of its own
  makes the conversion throw instead, which is not modelled: the job ids and messages
  printed here are declared strings.
\<close>

fun toString :: "(real \<Rightarrow> string) \<Rightarrow> jsval \<Rightarrow> string"
  and elementString :: "(real \<Rightarrow> string) \<Rightarrow> jsval \<Rightarrow> string" where
  "toString num JUndefined = ''undefined''"
| "toString num JNull = ''null''"
| "toString num (JBool b) = (if b then ''true'' else ''false'')"
| "toString num (JNum r) = num r"
| "toString num (JStr s) = s"
| "toString num (JArr xs) = joinWith '','' (map (elementString num) xs)"
| "toString num (JObj kvs) = ''[object Object]''"
| "elementString num v = (if v = JUndefined \<or> v = JNull then [] else toString num v)"

text \<open>\<^verbatim>\<open>Object.entries(v)\<close> for a value that is neither null nor undefined.\<close>

fun entries :: "(real \<Rightarrow> string) \<Rightarrow> jsval \<Rightarrow> (string \<times> jsval) list" where
  "entries num (JObj kvs) = kvs"
| "entries num (JArr xs) = zip (map (\<lambda>i. num (real i)) [0..<length xs]) xs"
| "entries num (JStr s) = zip (map (\<lambda>i. num (real i)) [0..<length s]) (map (\<lambda>c. JStr [c]) s)"
| "entries num v = []"


text \<open>
  A JavaScript number held in the client's own, typed state. A finite value is the real
  number the double stands for (rounding is not modelled), next to the three special
  values.
\<close>

datatype number = Num real | Infinity | NegInfinity | NaN

fun numTruthy :: "number \<Rightarrow> bool" where
  "numTruthy (Num r) = (r \<noteq> 0)"
| "numTruthy Infinity = True"
| "numTruthy NegInfinity = True"
| "numTruthy NaN = False"

text \<open>\<^verbatim>\<open>a > b\<close> on numbers.\<close>

fun numGreater :: "number \<Rightarrow> number \<Rightarrow> bool" where
  "numGreater (Num a) (Num b) = (a > b)"
| "numGreater Infinity (Num b) = True"
| "numGreater Infinity NegInfinity = True"
| "numGreater (Num a) NegInfinity = True"
| "numGreater a b = False"

text \<open>
  \<^verbatim>\<open>a * k\<close> for the factors the source multiplies by, 4 and 1. The product of a double
  with either is exact unless it leaves the range of the doubles, which ends below
  \<open>2 ^ 1024\<close>; there the result is infinite.
\<close>

fun numTimes :: "number \<Rightarrow> real \<Rightarrow> number" where
  "numTimes (Num a) k =
     (if a * k \<ge> 2 ^ 1024 then Infinity
      else if a * k \<le> - (2 ^ 1024) then NegInfinity
      else Num (a * k))"
| "numTimes Infinity k = Infinity"
| "numTimes NegInfinity k = NegInfinity"
| "numTimes NaN k = NaN"

section \<open>Records of the generator store\<close>

text \<open>
  \<open>ModelGenerationInputStable\<close>, with the fields \<^verbatim>\<open>getDefaultStore\<close> sets (\<open>n\<close> is
  named \<open>n_images\<close>) and \<open>post_processing\<close>, which only the cached request adds. The
  seed and the model name can come back from a stored gallery entry, whose values the
  server supplied, so they stay \<open>jsval\<close>.
\<close>

record ModelGenerationInputStable =
  steps :: number
  n_images :: number
  sampler_name :: string
  width :: number
  height :: number
  cfg_scale :: number
  seed_variation :: number
  seed :: jsval
  karras :: bool
  denoising_strength :: number
  post_processing :: "string list option"

definition getDefaultStore :: ModelGenerationInputStable where
  "getDefaultStore =
     \<lparr> steps = Num 30, n_images = Num 1, sampler_name = ''k_euler'',
       width = Num 512, height = Num 512, cfg_scale = Num 7, seed_variation = Num 1000,
       seed = JStr [], karras = True, denoising_strength = Num 0.75,
       post_processing = None \<rparr>"

record GenerationInput =
  gi_prompt :: string
  gi_params :: "ModelGenerationInputStable option"
  gi_nsfw :: bool
  censor_nsfw :: bool
  trusted_workers :: bool
  source_image :: "string option"
  source_mask :: "string option"
  source_processing :: "string option"
  workers :: "string list option"
  models :: "jsval list"

text \<open>
  \<open>ICurrentGeneration\<close>, a queued job \<^verbatim>\<open>{...paramsCached, id}\<close>: the cached request, the
  job id and the latest poll status.
\<close>

record ICurrentGeneration =
  cached :: GenerationInput
  job_id :: jsval
  waitData :: jsval

text \<open>
  A finished job record \<^verbatim>\<open>{...el, ...paramsCached}\<close>: the server's generation record
  \<open>el\<close> overlaid with the cached request (whose keys do not include \<open>img\<close>, \<open>seed\<close>,
  \<open>model\<close>, \<open>worker_id\<close> or \<open>worker_name\<close>).
\<close>

record FinishedImage =
  generation :: jsval
  echoed :: GenerationInput

text \<open>
  \<open>ImageData\<close>, a gallery entry (declared by the output store). Optional fields are
  options; the four values echoed from the server's generation record are \<open>jsval\<close>.
\<close>

record ImageData =
  img_id :: nat
  image :: string
  img_prompt :: "string option"
  modelName :: jsval
  workerID :: jsval
  workerName :: jsval
  img_seed :: jsval
  img_steps :: "number option"
  img_sampler_name :: "string option"
  img_width :: "number option"
  img_height :: "number option"
  img_cfg_scale :: "number option"
  img_karras :: "bool option"
  img_post_processing :: "string list option"
  starred :: bool

record IModelData =
  name :: jsval
  count :: number
  performance :: number
  description :: jsval
  style :: jsval
  nsfw :: jsval
  model_type :: jsval
  eta :: number
  queued :: number

text \<open>\<open>ActiveModel\<close>, an element of the live model list, at the types the source casts to.\<close>

record ActiveModel =
  live_name :: string
  live_count :: real
  live_performance :: real
  live_eta :: real
  live_queued :: real

record ITypeParams =
  sourceImage :: string
  fileList :: "(string \<times> string) list"
  maskImage :: string

section \<open>The outside world\<close>

datatype http_method = GET | POST | DELETE

record request =
  req_method :: http_method
  req_url :: string
  req_headers :: "(string \<times> string) list"
  req_body :: "GenerationInput option"

record Response =
  status :: nat
  body :: "jsval option"

text \<open>
  Calls into the collaborators this module does not own (the UI store, the canvas
  store, the router, the timer) are recorded in order in a trace. \<open>UpdateProgress\<close>
  carries the poll statuses of the queue, which the source sums field by field
  (\<^verbatim>\<open>mergeObjects\<close>) on the way to the UI store, and the seconds counter.
\<close>

datatype event =
    Http request
  | Sleep nat
  | RaiseError string bool
  | RaiseWarning string bool
  | SetProgress nat
  | UpdateProgress "jsval list" nat
  | SaveImages
  | SetActiveCollapse "string list"
  | SetActiveIndex string
  | RouterPush string

datatype generator_type = Text2Img | Img2Img | Inpainting

datatype nsfw_mode = Enabled | Disabled | Censored

datatype trust_mode = AllWorkers | TrustedOnly

text \<open>
  The state: the refs of the generator store, the \<open>outputs\<close> collection of the output
  store, the trace and a clock that counts the suspension points (\<^verbatim>\<open>await\<close>) passed.
\<close>

record store =
  generatorType :: generator_type
  prompt :: string
  negativePrompt :: string
  params :: ModelGenerationInputStable
  nsfwMode :: nsfw_mode
  trustedOnly :: trust_mode
  postProcessors :: "string list"
  availableModels :: "(string \<times> string) list"
  modelsJSON :: jsval
  modelsData :: "IModelData list"
  selectedModel :: jsval
  inpainting :: ITypeParams
  img2img :: ITypeParams
  generating :: bool
  cancelled :: bool
  images :: "ImageData list"
  queue :: "ICurrentGeneration list"
  outputs :: "ImageData list"
  trace :: "event list"
  clock :: nat

text \<open>
  The environment of a run. \<open>respond t r\<close> is the server's answer to request \<open>r\<close> issued
  at clock \<open>t\<close> (\<open>None\<close>: the fetch rejects); \<open>cancel_at t\<close> says that the user presses
  Cancel during suspension \<open>t\<close>, which sets the \<open>cancelled\<close> ref. The options store
  (\<open>baseURL\<close>, \<open>apiKey\<close>, \<open>useWorker\<close>, \<open>allowLargerParams\<close>), the constant
  \<open>MODELS_DB_URL\<close>, the output store's \<open>getNewImageID\<close> and \<open>correctOutputIDs\<close>, the
  canvas store's \<open>saveImages\<close> and \<^verbatim>\<open>Math.random\<close> (as the index it selects in a list
  of the given length) are not part of this module and are parameters.
\<close>

record env =
  baseURL :: string
  apiKey :: string
  useWorker :: string
  allowLargerParams :: string
  MODELS_DB_URL :: string
  respond :: "nat \<Rightarrow> request \<Rightarrow> Response option"
  cancel_at :: "nat \<Rightarrow> bool"
  randomIndex :: "nat \<Rightarrow> nat \<Rightarrow> nat"
  numberToString :: "real \<Rightarrow> string"
  getNewImageID :: "ImageData list \<Rightarrow> nat"
  correctOutputIDs :: "ImageData list \<Rightarrow> ImageData list"
  saveImages :: "ITypeParams \<times> ITypeParams \<Rightarrow> ITypeParams \<times> ITypeParams"

definition emit :: "event \<Rightarrow> store \<Rightarrow> store" where
  "emit e s = s\<lparr>trace := trace s @ [e]\<rparr>"

text \<open>
  One suspension point: time passes and the user may press Cancel. Nothing else
  writes to the store while a call is suspended.
\<close>

definition tick :: "env \<Rightarrow> store \<Rightarrow> store" where
  "tick env s = s\<lparr>cancelled := (cancelled s \<or> cancel_at env (clock s)), clock := Suc (clock s)\<rparr>"

text \<open>\<^verbatim>\<open>await fetch(url, {method})\<close>.\<close>

definition fetch :: "env \<Rightarrow> request \<Rightarrow> store \<Rightarrow> Response outcome \<times> store" where
  "fetch env r s =
     (case respond env (clock s) r of
        None \<Rightarrow> (Throw NetworkError, tick env (emit (Http r) s))
      | Some response \<Rightarrow> (Return response, tick env (emit (Http r) s)))"

text \<open>\<^verbatim>\<open>await response.json()\<close>.\<close>

definition response_json :: "env \<Rightarrow> Response \<Rightarrow> store \<Rightarrow> jsval outcome \<times> store" where
  "response_json env response s =
     (case body response of
        None \<Rightarrow> (Throw SyntaxError, tick env s)
      | Some j \<Rightarrow> (Return j, tick env s))"

text \<open>\<^verbatim>\<open>await sleep(ms)\<close>.\<close>

definition sleep :: "env \<Rightarrow> nat \<Rightarrow> store \<Rightarrow> store" where
  "sleep env ms s = tick env (emit (Sleep ms) s)"

section \<open>Response validation\<close>

definition returned :: "'a \<times> store \<Rightarrow> 'a outcome \<times> store" where
  "returned p = (Return (fst p), snd p)"

definition onInvalidResponse :: "string \<Rightarrow> store \<Rightarrow> bool \<times> store" where
  "onInvalidResponse msg s =
     (False, (emit (SetProgress 0) (emit (RaiseError msg False) s))\<lparr>cancelled := False, images := []\<rparr>)"

text \<open>\<open>Arrayable<number>\<close>: the expected status is a number or an array of numbers.\<close>

datatype 'a Arrayable = Single 'a | Multiple "'a list"

text \<open>
  \<^verbatim>\<open>validateResponse\<close>. The strict equality \<^verbatim>\<open>response.status === goodStatus\<close> holds
  only for a single number. The reads \<^verbatim>\<open>json.message\<close> and \<^verbatim>\<open>json.errors\<close> throw when
  \<open>json\<close> is null or undefined.
\<close>

definition validateResponse ::
  "env \<Rightarrow> Response \<Rightarrow> jsval \<Rightarrow> nat Arrayable \<Rightarrow> string \<Rightarrow> store \<Rightarrow> bool outcome \<times> store" where
  "validateResponse env response json goodStatus msg s =
     (if Single (status response) = goodStatus \<and> truthy json then (Return True, s)
      else
        (case getProp json ''message'' of
           Inl e \<Rightarrow> (Throw e, s)
         | Inr message \<Rightarrow>
             if \<not> truthy message then
               returned (onInvalidResponse
                 (msg @ '': Got response code '' @ numberToString env (real (status response))) s)
             else
               (case getProp json ''errors'' of
                  Inl e \<Rightarrow> (Throw e, s)
                | Inr errors \<Rightarrow>
                    if \<not> truthy errors then
                      returned (onInvalidResponse
                        (msg @ '': '' @ toString (numberToString env) message) s)
                    else
                      returned (onInvalidResponse
                        (msg @ '': '' @ toString (numberToString env) message @ '' (''
                           @ joinWith '' | ''
                               (map (\<lambda>el. fst el @ '' - '' @ toString (numberToString env) (snd el))
                                  (entries (numberToString env) errors))
                           @ '')'') s))))"

section \<open>The requests\<close>

text \<open>
  Sequencing of two steps, the second of which runs only when the first did not throw.
\<close>

fun andThen :: "'a outcome \<times> store \<Rightarrow> ('a \<Rightarrow> store \<Rightarrow> 'b outcome \<times> store) \<Rightarrow> 'b outcome \<times> store" where
  "andThen (Throw e, s) f = (Throw e, s)"
| "andThen (Return x, s) f = f x s"

definition newIDRequest :: "env \<Rightarrow> GenerationInput \<Rightarrow> request" where
  "newIDRequest env parameters =
     \<lparr> req_method = POST, req_url = baseURL env @ ''/api/v2/generate/async'',
       req_headers = [(''Content-Type'', ''application/json''), (''apikey'', apiKey env)],
       req_body = Some parameters \<rparr>"

definition checkRequest :: "env \<Rightarrow> jsval \<Rightarrow> request" where
  "checkRequest env imageID =
     \<lparr> req_method = GET,
       req_url = baseURL env @ ''/api/v2/generate/check/'' @ toString (numberToString env) imageID,
       req_headers = [], req_body = None \<rparr>"

definition cancelRequest :: "env \<Rightarrow> jsval \<Rightarrow> request" where
  "cancelRequest env imageID =
     \<lparr> req_method = DELETE,
       req_url = baseURL env @ ''/api/v2/generate/status/'' @ toString (numberToString env) imageID,
       req_headers = [], req_body = None \<rparr>"

definition statusRequest :: "env \<Rightarrow> jsval \<Rightarrow> request" where
  "statusRequest env imageID =
     \<lparr> req_method = GET,
       req_url = baseURL env @ ''/api/v2/generate/status/'' @ toString (numberToString env) imageID,
       req_headers = [], req_body = None \<rparr>"

definition modelsRequest :: "env \<Rightarrow> request" where
  "modelsRequest env =
     \<lparr> req_method = GET, req_url = baseURL env @ ''/api/v2/status/models'',
       req_headers = [], req_body = None \<rparr>"

definition modelsDBRequest :: "env \<Rightarrow> request" where
  "modelsDBRequest env =
     \<lparr> req_method = GET, req_url = MODELS_DB_URL env, req_headers = [], req_body = None \<rparr>"

text \<open>
  The four requests of a generation. Each returns the JavaScript value the source
  returns: \<^verbatim>\<open>false\<close> (\<open>JBool False\<close>) when validation fails.
\<close>

definition fetchNewID :: "env \<Rightarrow> GenerationInput \<Rightarrow> store \<Rightarrow> jsval outcome \<times> store" where
  "fetchNewID env parameters s =
     andThen (fetch env (newIDRequest env parameters) s) (\<lambda>response s1.
     andThen (response_json env response s1) (\<lambda>resJSON s2.
     andThen (validateResponse env response resJSON (Single 202) ''Failed to fetch ID'' s2) (\<lambda>ok s3.
       if \<not> ok then (Return (JBool False), s3) else (Return resJSON, s3))))"

definition cancelledStatus :: jsval where
  "cancelledStatus = JObj [(''wait_time'', JNum 0), (''done'', JBool False)]"

definition checkImage :: "env \<Rightarrow> jsval \<Rightarrow> store \<Rightarrow> jsval outcome \<times> store" where
  "checkImage env imageID s =
     andThen (fetch env (checkRequest env imageID) s) (\<lambda>response s1.
     andThen (response_json env response s1) (\<lambda>resJSON s2.
       if cancelled s2 then (Return cancelledStatus, s2)
       else
         andThen (validateResponse env response resJSON (Single 200) ''Failed to check image status'' s2)
           (\<lambda>ok s3. if \<not> ok then (Return (JBool False), s3) else (Return resJSON, s3))))"

definition cancelImage :: "env \<Rightarrow> jsval \<Rightarrow> store \<Rightarrow> jsval outcome \<times> store" where
  "cancelImage env imageID s =
     andThen (fetch env (cancelRequest env imageID) s) (\<lambda>response s1.
     andThen (response_json env response s1) (\<lambda>resJSON s2.
     andThen (validateResponse env response resJSON (Single 200) ''Failed to cancel image'' s2) (\<lambda>ok s3.
       if \<not> ok then (Return (JBool False), s3)
       else (case getProp resJSON ''generations'' of
               Inl e \<Rightarrow> (Throw e, s3)
             | Inr generations \<Rightarrow> (Return generations, s3)))))"

definition getImageStatus :: "env \<Rightarrow> jsval \<Rightarrow> store \<Rightarrow> jsval outcome \<times> store" where
  "getImageStatus env imageID s =
     andThen (fetch env (statusRequest env imageID) s) (\<lambda>response s1.
     andThen (response_json env response s1) (\<lambda>resJSON s2.
     andThen (validateResponse env response resJSON (Single 200) ''Failed to check image status'' s2) (\<lambda>ok s3.
       if \<not> ok then (Return (JBool False), s3)
       else (case getProp resJSON ''generations'' of
               Inl e \<Rightarrow> (Throw e, s3)
             | Inr generations \<Rightarrow> (Return generations, s3)))))"

section \<open>Failure and completion of a generation\<close>

text \<open>
  \<^verbatim>\<open>generationFailed\<close>. \<^verbatim>\<open>queue.value.forEach(el => cancelImage(el.id))\<close> starts one
  \<^verbatim>\<open>cancelImage\<close> per queued job and awaits none of them: each DELETE request is issued
  at once, and its response is handled only after the caller has returned.
\<close>

definition generationFailed :: "env \<Rightarrow> store \<Rightarrow> ImageData list \<times> store" where
  "generationFailed env s =
     ([], (foldl (\<lambda>s' el. emit (Http (cancelRequest env (job_id el))) s')
             (s\<lparr>generating := False\<rparr>) (queue s))\<lparr>queue := []\<rparr>)"

definition upscaleFactor :: "ModelGenerationInputStable \<Rightarrow> real" where
  "upscaleFactor p =
     (if ''RealESRGAN_x4plus'' \<in> set (case post_processing p of None \<Rightarrow> [] | Some pp \<Rightarrow> pp)
      then 4 else 1)"

text \<open>
  The gallery entry \<^verbatim>\<open>generationDone\<close> builds from one finished job record;
  \<open>newID\<close> is what \<^verbatim>\<open>store.getNewImageID()\<close> returned.
\<close>

definition toImageData :: "env \<Rightarrow> nat \<Rightarrow> FinishedImage \<Rightarrow> ImageData" where
  "toImageData env newID img =
     \<lparr> img_id = newID,
       image = ''data:image/webp;base64,''
                 @ toString (numberToString env) (getPropOpt (generation img) ''img''),
       img_prompt = Some (gi_prompt (echoed img)),
       modelName = getPropOpt (generation img) ''model'',
       workerID = getPropOpt (generation img) ''worker_id'',
       workerName = getPropOpt (generation img) ''worker_name'',
       img_seed = getPropOpt (generation img) ''seed'',
       img_steps = map_option steps (gi_params (echoed img)),
       img_sampler_name = map_option sampler_name (gi_params (echoed img)),
       img_width = Some (case gi_params (echoed img) of
                           None \<Rightarrow> NaN
                         | Some p \<Rightarrow> numTimes (width p) (upscaleFactor p)),
       img_height = Some (case gi_params (echoed img) of
                            None \<Rightarrow> NaN
                          | Some p \<Rightarrow> numTimes (height p) (upscaleFactor p)),
       img_cfg_scale = map_option cfg_scale (gi_params (echoed img)),
       img_karras = map_option karras (gi_params (echoed img)),
       img_post_processing = (case gi_params (echoed img) of
                                None \<Rightarrow> None
                              | Some p \<Rightarrow> post_processing p),
       starred = False \<rparr>"

text \<open>
  \<^verbatim>\<open>generationDone\<close> up to and including the assignment
  \<^verbatim>\<open>store.outputs = [...store.outputs, ...finalParams]\<close>. The ids are all read before
  the output collection changes.
\<close>

definition storeOutputs :: "env \<Rightarrow> FinishedImage list \<Rightarrow> store \<Rightarrow> ImageData list \<times> store" where
  "storeOutputs env finalImages s =
     (let finalParams = map (toImageData env (getNewImageID env (outputs s))) finalImages
      in (finalParams,
          (emit (SetProgress 0) s)
            \<lparr> generating := False, cancelled := False, images := finalParams,
              outputs := outputs s @ finalParams \<rparr>))"

text \<open>
  \<^verbatim>\<open>generationDone\<close>: after the assignment the output store's \<^verbatim>\<open>correctOutputIDs\<close>
  runs on the collection, and the new entries are returned.
\<close>

definition generationDone :: "env \<Rightarrow> FinishedImage list \<Rightarrow> store \<Rightarrow> ImageData list \<times> store" where
  "generationDone env finalImages s =
     (case storeOutputs env finalImages s of
        (finalParams, s1) \<Rightarrow> (finalParams, s1\<lparr>outputs := correctOutputIDs env (outputs s1)\<rparr>))"

section \<open>generateImage\<close>

definition getFullPrompt :: "store \<Rightarrow> string" where
  "getFullPrompt s =
     (if negativePrompt s = [] then prompt s else prompt s @ '' ### '' @ negativePrompt s)"

text \<open>
  The source image, the mask and the processing kind by generator type; the canvas
  store's \<^verbatim>\<open>saveImages\<close> may rewrite the two image slots first.
\<close>

definition canvasSaveImages :: "env \<Rightarrow> store \<Rightarrow> store" where
  "canvasSaveImages env s =
     (emit SaveImages s)
       \<lparr> img2img := fst (saveImages env (img2img s, inpainting s)),
         inpainting := snd (saveImages env (img2img s, inpainting s)) \<rparr>"

definition loadSources ::
  "env \<Rightarrow> generator_type \<Rightarrow> store \<Rightarrow> (string option \<times> string option \<times> string option) \<times> store" where
  "loadSources env ty s =
     (case ty of
        Text2Img \<Rightarrow> ((None, None, None), s)
      | Img2Img \<Rightarrow>
          (let s1 = canvasSaveImages env s
           in ((Some (sourceImage (img2img s1)),
                (if maskImage (img2img s1) \<noteq> [] then Some (maskImage (img2img s1)) else None),
                Some ''img2img''), s1))
      | Inpainting \<Rightarrow>
          (let s1 = canvasSaveImages env s
           in ((Some (sourceImage (inpainting s1)), Some (maskImage (inpainting s1)),
                Some ''inpainting''), s1)))"

text \<open>
  The model list. For \<^verbatim>\<open>"Random!"\<close> the source indexes the real models with
  \<^verbatim>\<open>Math.floor(Math.random() * realModels.length)\<close> and reads \<^verbatim>\<open>.value\<close>, which
  throws when there is no real model. The index is below the length; \<open>randomIndex\<close> is
  reduced modulo the length to say so.
\<close>

definition chooseModel :: "env \<Rightarrow> store \<Rightarrow> exn + jsval list" where
  "chooseModel env s =
     (if selectedModel s = JStr ''Random!'' then
        (let realModels = filter (\<lambda>el. fst el \<noteq> ''Random!'') (availableModels s)
         in if realModels = [] then Inl TypeError
            else Inr [JStr (fst (realModels !
                   (randomIndex env (clock s) (length realModels) mod length realModels)))])
      else Inr [selectedModel s])"

definition cacheParameters ::
  "env \<Rightarrow> string option \<times> string option \<times> string option \<Rightarrow> jsval list \<Rightarrow> store \<Rightarrow> GenerationInput" where
  "cacheParameters env src model s =
     \<lparr> gi_prompt = getFullPrompt s,
       gi_params = Some ((params s)
         \<lparr> seed_variation := (if seed (params s) = JStr [] then Num 1000 else Num 1),
           post_processing := Some (postProcessors s) \<rparr>),
       gi_nsfw = (nsfwMode s = Enabled),
       censor_nsfw = (nsfwMode s = Censored),
       trusted_workers = (trustedOnly s = TrustedOnly),
       source_image = fst src,
       source_mask = fst (snd src),
       source_processing = snd (snd src),
       workers = (if useWorker env = ''None'' then None else Some [useWorker env]),
       models = model \<rparr>"

text \<open>How a loop of \<^verbatim>\<open>generateImage\<close> ends: the function returns from inside it, or it completes.\<close>

datatype ('r, 'a) flow = EarlyReturn 'r | Completed 'a

definition isDone :: "ICurrentGeneration \<Rightarrow> bool" where
  "isDone el = truthy (getPropOpt (waitData el) ''done'')"

text \<open>
  One pass of \<^verbatim>\<open>for (const queuedImage of queue.value)\<close> over the queue positions \<open>is\<close>
  still to visit: a job that reports done is skipped, every other job is checked.
\<close>

fun pollJobs :: "env \<Rightarrow> nat list \<Rightarrow> store \<Rightarrow> (ImageData list, unit) flow outcome \<times> store" where
  "pollJobs env [] s = (Return (Completed ()), s)"
| "pollJobs env (i # is) s =
     (if isDone (queue s ! i) then pollJobs env is s
      else
        andThen (checkImage env (job_id (queue s ! i)) s) (\<lambda>status s1.
          if \<not> truthy status then
            (Return (EarlyReturn (fst (generationFailed env s1))), snd (generationFailed env s1))
          else
            pollJobs env is (s1\<lparr>queue := (queue s1)[i := (queue s1 ! i)\<lparr>waitData := status\<rparr>]\<rparr>)))"

text \<open>
  The poll loop (\<^verbatim>\<open>while (!queue.value.every(el => el.waitData?.done) && !cancelled.value)\<close>).
  It may run forever; \<open>None\<close> stands for that.
\<close>

partial_function (option) pollLoop ::
  "env \<Rightarrow> nat \<Rightarrow> store \<Rightarrow> ((ImageData list, unit) flow outcome \<times> store) option" where
  "pollLoop env secondsElapsed s =
     (if \<not> list_all isDone (queue s) \<and> \<not> cancelled s then
        (case pollJobs env [0..<length (queue s)] s of
           (Throw e, s1) \<Rightarrow> Some (Throw e, s1)
         | (Return (EarlyReturn r), s1) \<Rightarrow> Some (Return (EarlyReturn r), s1)
         | (Return (Completed u), s1) \<Rightarrow>
             pollLoop env (Suc secondsElapsed)
               (sleep env 500
                  (emit (UpdateProgress (map waitData (queue s1)) (Suc secondsElapsed)) s1)))
      else Some (Return (Completed ()), s))"

text \<open>
  The spread \<^verbatim>\<open>...finalImages\<close> of a truthy value into an array: an array gives its
  elements, a string its characters, anything else is not iterable.
\<close>

fun spread :: "jsval \<Rightarrow> exn + jsval list" where
  "spread (JArr xs) = Inr xs"
| "spread (JStr cs) = Inr (map (\<lambda>c. JStr [c]) cs)"
| "spread v = Inl TypeError"

text \<open>The loop over \<open>queueCached\<close> that cancels or fetches each job.\<close>

fun collectImages ::
  "env \<Rightarrow> ICurrentGeneration list \<Rightarrow> jsval list \<Rightarrow> store \<Rightarrow> (ImageData list, jsval list) flow outcome \<times> store" where
  "collectImages env [] allImages s = (Return (Completed allImages), s)"
| "collectImages env (queuedImage # rest) allImages s =
     andThen
       (if cancelled s then cancelImage env (job_id queuedImage) s
        else getImageStatus env (job_id queuedImage) s)
       (\<lambda>finalImages s1.
          if \<not> truthy finalImages then
            (Return (EarlyReturn (fst (generationFailed env s1))), snd (generationFailed env s1))
          else
            (case spread finalImages of
               Inl e \<Rightarrow> (Throw e, s1)
             | Inr xs \<Rightarrow> collectImages env rest (allImages @ xs) s1))"

text \<open>The part of \<^verbatim>\<open>generateImage\<close> after the poll loop.\<close>

definition finishGeneration :: "env \<Rightarrow> GenerationInput \<Rightarrow> store \<Rightarrow> ImageData list outcome \<times> store" where
  "finishGeneration env paramsCached s =
     andThen (collectImages env (queue s) [] (s\<lparr>queue := []\<rparr>)) (\<lambda>r s1.
       case r of
         EarlyReturn x \<Rightarrow> (Return x, s1)
       | Completed allImages \<Rightarrow>
           returned (generationDone env
             (map (\<lambda>el. \<lparr>generation = el, echoed = paramsCached\<rparr>) allImages) s1))"

text \<open>The part of \<^verbatim>\<open>generateImage\<close> from the poll loop on.\<close>

definition pollAndFinish ::
  "env \<Rightarrow> GenerationInput \<Rightarrow> store \<Rightarrow> (ImageData list outcome \<times> store) option" where
  "pollAndFinish env paramsCached s =
     (case pollLoop env 0 s of
        None \<Rightarrow> None
      | Some (Throw e, s2) \<Rightarrow> Some (Throw e, s2)
      | Some (Return (EarlyReturn r), s2) \<Rightarrow> Some (Return r, s2)
      | Some (Return (Completed u), s2) \<Rightarrow> Some (finishGeneration env paramsCached s2))"

text \<open>The part of \<^verbatim>\<open>generateImage\<close> from \<^verbatim>\<open>generating.value = true\<close> on.\<close>

definition runGeneration ::
  "env \<Rightarrow> GenerationInput \<Rightarrow> store \<Rightarrow> (ImageData list outcome \<times> store) option" where
  "runGeneration env paramsCached s =
     (case fetchNewID env paramsCached (s\<lparr>generating := True\<rparr>) of
        (Throw e, s1) \<Rightarrow> Some (Throw e, s1)
      | (Return resJSON, s1) \<Rightarrow>
          if \<not> truthy resJSON then Some (returned (generationFailed env s1))
          else
            pollAndFinish env paramsCached
              (s1\<lparr> images := [],
                   queue := queue s1 @
                     [\<lparr>cached = paramsCached, job_id = getPropOpt resJSON ''id'',
                       waitData = JUndefined\<rparr>] \<rparr>))"

definition generateImage ::
  "env \<Rightarrow> generator_type \<Rightarrow> store \<Rightarrow> (ImageData list outcome \<times> store) option" where
  "generateImage env ty s =
     (if prompt s = [] then Some (Return [], s)
      else
        (case loadSources env ty s of
           (src, s1) \<Rightarrow>
             (case chooseModel env s1 of
                Inl e \<Rightarrow> Some (Throw e, s1)
              | Inr model \<Rightarrow> runGeneration env (cacheParameters env src model s1) s1)))"

section \<open>generateText2Img\<close>

definition maxDimensions :: "env \<Rightarrow> number" where
  "maxDimensions env = (if allowLargerParams env = ''Enabled'' then Num 3072 else Num 1024)"

definition maxSteps :: "env \<Rightarrow> number" where
  "maxSteps env = (if allowLargerParams env = ''Enabled'' then Num 500 else Num 50)"

definition numberString :: "env \<Rightarrow> number \<Rightarrow> string" where
  "numberString env x =
     (case x of Num r \<Rightarrow> numberToString env r | Infinity \<Rightarrow> ''Infinity''
      | NegInfinity \<Rightarrow> ''-Infinity'' | NaN \<Rightarrow> ''NaN'')"

definition largerValuesWarning :: "env \<Rightarrow> string \<Rightarrow> number \<Rightarrow> string" where
  "largerValuesWarning env paramName param =
     ''This image was generated using the '' @ [CHR 0x27] @ ''Larger Values'' @ [CHR 0x27]
       @ '' option. Setting '' @ [CHR 0x27] @ paramName @ [CHR 0x27]
       @ '' to its default value instead of '' @ numberString env param @ ''.''"

definition validateParam ::
  "env \<Rightarrow> string \<Rightarrow> number \<Rightarrow> number \<Rightarrow> number \<Rightarrow> store \<Rightarrow> number \<times> store" where
  "validateParam env paramName param maxValue defaultValue s =
     (if numGreater param maxValue then
        (defaultValue, emit (RaiseWarning (largerValuesWarning env paramName param) True) s)
      else (param, s))"

text \<open>\<^verbatim>\<open>str.split(sep)\<close> for a separator that is not empty.\<close>

function splitOn :: "string \<Rightarrow> string \<Rightarrow> string \<Rightarrow> string list" where
  "splitOn sep acc [] = [rev acc]"
| "splitOn sep acc (c # cs) =
     (if take (length sep) (c # cs) = sep then rev acc # splitOn sep [] (drop (length sep - 1) cs)
      else splitOn sep (c # acc) cs)"
  by pat_completeness auto
termination
  by (relation "measure (\<lambda>(sep, acc, cs). length cs)") auto

definition truthyOpt :: "('a \<Rightarrow> bool) \<Rightarrow> 'a option \<Rightarrow> bool" where
  "truthyOpt t x = (case x of None \<Rightarrow> False | Some v \<Rightarrow> t v)"

text \<open>
  \<^verbatim>\<open>generateText2Img\<close>, one definition per statement group. Each \<^verbatim>\<open>if (data.x)\<close> tests
  the truthiness of an optional field.
\<close>

definition openGenerator :: "store \<Rightarrow> store" where
  "openGenerator s =
     emit (RouterPush ''/'') (emit (SetActiveIndex ''/'') (emit (SetActiveCollapse [''2''])
       (s\<lparr>generatorType := Text2Img\<rparr>)))"

definition loadPrompt :: "ImageData \<Rightarrow> store \<Rightarrow> store" where
  "loadPrompt data s =
     (if truthyOpt (\<lambda>p. p \<noteq> []) (img_prompt data) then
        (let splitPrompt = splitOn '' ### '' [] (the (img_prompt data))
         in s\<lparr> prompt := hd splitPrompt,
                negativePrompt := (if length splitPrompt > 1 then splitPrompt ! 1 else []) \<rparr>)
      else s)"

definition loadSteps :: "env \<Rightarrow> ImageData \<Rightarrow> store \<Rightarrow> store" where
  "loadSteps env data s =
     (if truthyOpt numTruthy (img_steps data) then
        (case validateParam env ''steps'' (the (img_steps data)) (maxSteps env)
                (steps getDefaultStore) s of
           (v, s1) \<Rightarrow> s1\<lparr>params := (params s1)\<lparr>steps := v\<rparr>\<rparr>)
      else s)"

definition loadWidth :: "env \<Rightarrow> ImageData \<Rightarrow> store \<Rightarrow> store" where
  "loadWidth env data s =
     (if truthyOpt numTruthy (img_width data) then
        (case validateParam env ''width'' (the (img_width data)) (maxDimensions env)
                (width getDefaultStore) s of
           (v, s1) \<Rightarrow> s1\<lparr>params := (params s1)\<lparr>width := v\<rparr>\<rparr>)
      else s)"

definition loadHeight :: "env \<Rightarrow> ImageData \<Rightarrow> store \<Rightarrow> store" where
  "loadHeight env data s =
     (if truthyOpt numTruthy (img_height data) then
        (case validateParam env ''height'' (the (img_height data)) (maxDimensions env)
                (height getDefaultStore) s of
           (v, s1) \<Rightarrow> s1\<lparr>params := (params s1)\<lparr>height := v\<rparr>\<rparr>)
      else s)"

definition loadSampler :: "ImageData \<Rightarrow> store \<Rightarrow> store" where
  "loadSampler data s =
     (if truthyOpt (\<lambda>n. n \<noteq> []) (img_sampler_name data)
      then s\<lparr>params := (params s)\<lparr>sampler_name := the (img_sampler_name data)\<rparr>\<rparr> else s)"

definition loadCfgScale :: "ImageData \<Rightarrow> store \<Rightarrow> store" where
  "loadCfgScale data s =
     (if truthyOpt numTruthy (img_cfg_scale data)
      then s\<lparr>params := (params s)\<lparr>cfg_scale := the (img_cfg_scale data)\<rparr>\<rparr> else s)"

definition loadSeed :: "ImageData \<Rightarrow> store \<Rightarrow> store" where
  "loadSeed data s =
     (if truthy (img_seed data) then s\<lparr>params := (params s)\<lparr>seed := img_seed data\<rparr>\<rparr> else s)"

definition loadKarras :: "ImageData \<Rightarrow> store \<Rightarrow> store" where
  "loadKarras data s =
     (if truthyOpt (\<lambda>b. b) (img_karras data)
      then s\<lparr>params := (params s)\<lparr>karras := the (img_karras data)\<rparr>\<rparr> else s)"

definition loadPostProcessing :: "ImageData \<Rightarrow> store \<Rightarrow> store" where
  "loadPostProcessing data s =
     (if truthyOpt (\<lambda>pp. True) (img_post_processing data)
      then s\<lparr>postProcessors := the (img_post_processing data)\<rparr> else s)"

definition loadModelName :: "ImageData \<Rightarrow> store \<Rightarrow> store" where
  "loadModelName data s =
     (if truthy (modelName data) then s\<lparr>selectedModel := modelName data\<rparr> else s)"

definition generateText2Img :: "env \<Rightarrow> ImageData \<Rightarrow> store \<Rightarrow> store" where
  "generateText2Img env data s =
     loadModelName data (loadPostProcessing data (loadKarras data (loadSeed data
       (loadHeight env data (loadWidth env data (loadCfgScale data (loadSteps env data
         (loadSampler data (loadPrompt data (openGenerator s))))))))))"

section \<open>updateAvailableModels\<close>

text \<open>
  The live model list at its declared type \<^verbatim>\<open>ActiveModel[]\<close>: the source sorts it by
  \<open>count\<close> and casts the other fields, so a body that validates is read as an array of
  objects with a string \<open>name\<close> and numeric \<open>count\<close>, \<open>performance\<close>, \<open>eta\<close> and
  \<open>queued\<close>. On any other body the source still sorts and merges, with an order its
  comparator does not determine; the model does not follow it there and ends with
  \<open>OutsideDeclaredType\<close>, which stands for no exception of the source.
\<close>

fun asActiveModel :: "jsval \<Rightarrow> ActiveModel option" where
  "asActiveModel (JObj kvs) =
     (case (map_of kvs ''name'', map_of kvs ''count'', map_of kvs ''performance'',
            map_of kvs ''eta'', map_of kvs ''queued'') of
        (Some (JStr nm), Some (JNum c), Some (JNum p), Some (JNum e), Some (JNum q)) \<Rightarrow>
          Some \<lparr> live_name = nm, live_count = c, live_performance = p, live_eta = e,
                 live_queued = q \<rparr>
      | _ \<Rightarrow> None)"
| "asActiveModel v = None"

fun asActiveModels :: "jsval \<Rightarrow> ActiveModel list option" where
  "asActiveModels (JArr xs) =
     (if list_all (\<lambda>x. asActiveModel x \<noteq> None) xs then Some (map (\<lambda>x. the (asActiveModel x)) xs)
      else None)"
| "asActiveModels v = None"

text \<open>
  \<^verbatim>\<open>resJSON.sort((a, b) => b.count - a.count)\<close>: a stable sort by descending count.
\<close>

definition sortByCount :: "ActiveModel list \<Rightarrow> ActiveModel list" where
  "sortByCount xs = sort_key (\<lambda>el. - live_count el) xs"

text \<open>
  \<^verbatim>\<open>Object.keys(dbJSON)\<close> paired with \<^verbatim>\<open>dbJSON[key]\<close>; it throws on null and undefined.
\<close>

definition objectEntries :: "env \<Rightarrow> jsval \<Rightarrow> exn + (string \<times> jsval) list" where
  "objectEntries env v =
     (if v = JNull \<or> v = JUndefined then Inl TypeError else Inr (entries (numberToString env) v))"

text \<open>
  One turn of the merge loop for the database entry \<open>entry\<close>: the destructuring throws
  on null and undefined; \<^verbatim>\<open>includes(name)\<close> and \<^verbatim>\<open>indexOf(name)\<close> find the first live
  model of that name.
\<close>

definition modelRecord :: "ActiveModel list \<Rightarrow> jsval \<Rightarrow> exn + IModelData" where
  "modelRecord resJSON entry =
     (case getProp entry ''name'' of
        Inl e \<Rightarrow> Inl e
      | Inr nm \<Rightarrow>
          (case find (\<lambda>el. JStr (live_name el) = nm) resJSON of
             Some el \<Rightarrow>
               Inr \<lparr> name = nm, count = Num (live_count el),
                     performance = Num (live_performance el),
                     description = getPropOpt entry ''description'',
                     style = getPropOpt entry ''style'', nsfw = getPropOpt entry ''nsfw'',
                     model_type = getPropOpt entry ''type'',
                     eta = Num (live_eta el), queued = Num (live_queued el) \<rparr>
           | None \<Rightarrow>
               Inr \<lparr> name = nm, count = Num 0, performance = Num 0,
                     description = getPropOpt entry ''description'',
                     style = getPropOpt entry ''style'', nsfw = getPropOpt entry ''nsfw'',
                     model_type = getPropOpt entry ''type'',
                     eta = Infinity, queued = Num 0 \<rparr>))"

fun buildModelsData :: "ActiveModel list \<Rightarrow> jsval list \<Rightarrow> exn + IModelData list" where
  "buildModelsData resJSON [] = Inr []"
| "buildModelsData resJSON (entry # rest) =
     (case modelRecord resJSON entry of
        Inl e \<Rightarrow> Inl e
      | Inr r \<Rightarrow>
          (case buildModelsData resJSON rest of
             Inl e \<Rightarrow> Inl e
           | Inr rs \<Rightarrow> Inr (r # rs)))"

text \<open>
  The record \<open>modelRecord\<close> builds for a database entry that is neither null nor
  undefined.
\<close>

definition mergedRecord :: "ActiveModel list \<Rightarrow> jsval \<Rightarrow> IModelData" where
  "mergedRecord resJSON entry =
     (case find (\<lambda>el. JStr (live_name el) = getPropOpt entry ''name'') resJSON of
        Some el \<Rightarrow>
          \<lparr> name = getPropOpt entry ''name'', count = Num (live_count el),
            performance = Num (live_performance el),
            description = getPropOpt entry ''description'',
            style = getPropOpt entry ''style'', nsfw = getPropOpt entry ''nsfw'',
            model_type = getPropOpt entry ''type'',
            eta = Num (live_eta el), queued = Num (live_queued el) \<rparr>
      | None \<Rightarrow>
          \<lparr> name = getPropOpt entry ''name'', count = Num 0, performance = Num 0,
            description = getPropOpt entry ''description'',
            style = getPropOpt entry ''style'', nsfw = getPropOpt entry ''nsfw'',
            model_type = getPropOpt entry ''type'',
            eta = Infinity, queued = Num 0 \<rparr>)"

definition modelOptions :: "env \<Rightarrow> ActiveModel list \<Rightarrow> (string \<times> string) list" where
  "modelOptions env resJSON =
     map (\<lambda>el. (live_name el,
                 live_name el @ '' ('' @ numberToString env (live_count el) @ '')'')) resJSON
       @ [(''Random!'', ''Random!'')]"

text \<open>The part of \<^verbatim>\<open>updateAvailableModels\<close> after the live list has been validated.\<close>

definition mergeModelsDB :: "env \<Rightarrow> ActiveModel list \<Rightarrow> store \<Rightarrow> unit outcome \<times> store" where
  "mergeModelsDB env resJSON s =
     andThen (fetch env (modelsDBRequest env) (s\<lparr>availableModels := modelOptions env resJSON\<rparr>))
       (\<lambda>dbResponse s1.
     andThen (response_json env dbResponse s1) (\<lambda>dbJSON s2.
       (case objectEntries env dbJSON of
          Inl e \<Rightarrow> (Throw e, s2\<lparr>modelsJSON := dbJSON\<rparr>)
        | Inr kvs \<Rightarrow>
            (case buildModelsData resJSON (map snd kvs) of
               Inl e \<Rightarrow> (Throw e, s2\<lparr>modelsJSON := dbJSON\<rparr>)
             | Inr newStuff \<Rightarrow>
                 (Return (), s2\<lparr>modelsJSON := dbJSON, modelsData := newStuff\<rparr>)))))"

definition updateAvailableModels :: "env \<Rightarrow> store \<Rightarrow> unit outcome \<times> store" where
  "updateAvailableModels env s =
     andThen (fetch env (modelsRequest env) s) (\<lambda>response s1.
     andThen (response_json env response s1) (\<lambda>resJSON s2.
     andThen (validateResponse env response resJSON (Single 200)
                ''Failed to get available models'' s2) (\<lambda>ok s3.
       if \<not> ok then (Return (), s3)
       else
         (case asActiveModels resJSON of
            None \<Rightarrow> (Throw OutsideDeclaredType, s3)
          | Some live \<Rightarrow> mergeModelsDB env (sortByCount live) s3))))"

section \<open>Reading the trace\<close>

text \<open>The HTTP requests of a trace, in the order they were issued.\<close>

fun requestsOf :: "event list \<Rightarrow> request list" where
  "requestsOf [] = []"
| "requestsOf (Http r # es) = r # requestsOf es"
| "requestsOf (e # es) = requestsOf es"

text \<open>The delays of a trace, in milliseconds.\<close>

fun sleepsOf :: "event list \<Rightarrow> nat list" where
  "sleepsOf [] = []"
| "sleepsOf (Sleep ms # es) = ms # sleepsOf es"
| "sleepsOf (e # es) = sleepsOf es"

text \<open>
  The state \<open>s'\<close> comes after \<open>s\<close> with exactly the request \<open>r\<close> added and no delay, and
  the queue, the \<open>generating\<close> flag and the output collection as they were.
\<close>

definition requested :: "request \<Rightarrow> store \<Rightarrow> store \<Rightarrow> bool" where
  "requested r s s' \<longleftrightarrow>
     queue s' = queue s \<and> generating s' = generating s \<and> outputs s' = outputs s
     \<and> clock s < clock s'
     \<and> requestsOf (trace s') = requestsOf (trace s) @ [r]
     \<and> sleepsOf (trace s') = sleepsOf (trace s)"

text \<open>The requests added between \<open>s\<close> and \<open>s'\<close> all satisfy \<open>P\<close>.\<close>

definition addsRequests :: "(request \<Rightarrow> bool) \<Rightarrow> store \<Rightarrow> store \<Rightarrow> bool" where
  "addsRequests P s s' \<longleftrightarrow>
     (\<exists>rs. requestsOf (trace s') = requestsOf (trace s) @ rs \<and> list_all P rs)"

section \<open>Answers to a cancellation or a final status request\<close>




section \<open>The output store\<close>

text \<open>Two gallery entries that differ in nothing but the id.\<close>

definition sameButId :: "ImageData \<Rightarrow> ImageData \<Rightarrow> bool" where
  "sameButId a b \<longleftrightarrow> a\<lparr>img_id := 0\<rparr> = b\<lparr>img_id := 0\<rparr>"

text \<open>
  What the name of \<^verbatim>\<open>correctOutputIDs\<close> says of it: it keeps the entries and their order
  and rewrites ids only.
\<close>

definition rewritesIdsOnly :: "env \<Rightarrow> bool" where
  "rewritesIdsOnly env \<longleftrightarrow> (\<forall>xs. list_all2 sameButId (correctOutputIDs env xs) xs)"

section \<open>The endpoints the specification documents\<close>

definition startsWith :: "string \<Rightarrow> string \<Rightarrow> bool" where
  "startsWith p u \<longleftrightarrow> take (length p) u = p"

text \<open>
  Section 6 of the specification: \<^verbatim>\<open>POST /api/v2/generate/async\<close>,
  \<^verbatim>\<open>GET /api/v2/generate/check/:id\<close>, \<^verbatim>\<open>GET /api/v2/generate/status/:id\<close>,
  \<^verbatim>\<open>DELETE /api/v2/generate/status/:id\<close> and \<^verbatim>\<open>GET /api/v2/status/models\<close> on the base
  URL, and a GET of the model database at its fixed URL.
\<close>

definition documentedEndpoint :: "env \<Rightarrow> request \<Rightarrow> bool" where
  "documentedEndpoint env r \<longleftrightarrow>
     (req_method r = POST \<and> req_url r = baseURL env @ ''/api/v2/generate/async'')
   \<or> (req_method r = GET \<and> startsWith (baseURL env @ ''/api/v2/generate/check/'') (req_url r))
   \<or> (req_method r = GET \<and> startsWith (baseURL env @ ''/api/v2/generate/status/'') (req_url r))
   \<or> (req_method r = DELETE \<and> startsWith (baseURL env @ ''/api/v2/generate/status/'') (req_url r))
   \<or> (req_method r = GET \<and> req_url r = baseURL env @ ''/api/v2/status/models'')
   \<or> (req_method r = GET \<and> req_url r = MODELS_DB_URL env)"

text \<open>
  What holds between the state \<open>s\<close> at the head of the poll loop and an outcome \<open>y\<close> of
  the loop from there: only documented requests and delays of 500 ms are added; a loop
  that completes has every job done or the \<open>cancelled\<close> flag set, with the same jobs
  queued; a loop the function returns from does so through \<^verbatim>\<open>generationFailed\<close>.
\<close>

definition loopFacts :: "env \<Rightarrow> store \<Rightarrow> ((ImageData list, unit) flow outcome \<times> store) \<Rightarrow> bool" where
  "loopFacts env s y \<longleftrightarrow>
     addsRequests (documentedEndpoint env) s (snd y)
       \<and> (\<exists>k. sleepsOf (trace (snd y)) = sleepsOf (trace s) @ replicate k 500)
       \<and> outputs (snd y) = outputs s
       \<and> (\<forall>u. fst y = Return (Completed u) \<longrightarrow>
             (list_all isDone (queue (snd y)) \<or> cancelled (snd y))
             \<and> map job_id (queue (snd y)) = map job_id (queue s)
             \<and> generating (snd y) = generating s)
       \<and> (\<forall>r. fst y = Return (EarlyReturn r) \<longrightarrow>
            (\<exists>s1. r = fst (generationFailed env s1) \<and> snd y = snd (generationFailed env s1)
                 \<and> map job_id (queue s1) = map job_id (queue s)))"

section \<open>Range validation: what is stored and what is warned\<close>

text \<open>\<^verbatim>\<open>x % 64 === 0\<close>: the number is finite and a multiple of 64.\<close>

definition divisibleBy64 :: "number \<Rightarrow> bool" where
  "divisibleBy64 x =
     (case x of Num r \<Rightarrow> r = 64 * of_int \<lfloor>r / 64\<rfloor> | Infinity \<Rightarrow> False
      | NegInfinity \<Rightarrow> False | NaN \<Rightarrow> False)"

text \<open>
  The value a guarded assignment
  \<^verbatim>\<open>if (data.x) params.value.x = validateParam("x", data.x, cap, dflt)\<close> leaves in the
  store, and the warning it raises.
\<close>

definition stored :: "number option \<Rightarrow> number \<Rightarrow> number \<Rightarrow> number \<Rightarrow> number" where
  "stored given cap dflt old =
     (case given of
        None \<Rightarrow> old
      | Some v \<Rightarrow> if numTruthy v then (if numGreater v cap then dflt else v) else old)"

definition warned :: "env \<Rightarrow> string \<Rightarrow> number option \<Rightarrow> number \<Rightarrow> event list" where
  "warned env paramName given cap =
     (case given of
        None \<Rightarrow> []
      | Some v \<Rightarrow>
          if numTruthy v \<and> numGreater v cap
          then [RaiseWarning (largerValuesWarning env paramName v) True] else [])"

section \<open>A concrete store and environment\<close>

text \<open>The store as the module creates it, with an empty output collection.\<close>

definition initialStore :: store where
  "initialStore =
     \<lparr> generatorType = Text2Img, prompt = [], negativePrompt = [], params = getDefaultStore,
       nsfwMode = Enabled, trustedOnly = AllWorkers, postProcessors = [],
       availableModels = [], modelsJSON = JObj [], modelsData = [],
       selectedModel = JStr ''stable_diffusion'',
       inpainting = \<lparr>sourceImage = [], fileList = [], maskImage = []\<rparr>,
       img2img = \<lparr>sourceImage = [], fileList = [], maskImage = []\<rparr>,
       generating = False, cancelled = False, images = [], queue = [], outputs = [],
       trace = [], clock = 0 \<rparr>"

text \<open>
  A server that accepts every job as \<open>job1\<close>, reports it unfinished while the clock is
  below \<open>ready\<close> and finished from then on, and answers a status or cancel request with
  one generation.
\<close>

definition sampleGeneration :: jsval where
  "sampleGeneration =
     JObj [(''img'', JStr ''AAAA''), (''seed'', JStr ''42''), (''model'', JStr ''stable_diffusion''),
           (''worker_id'', JStr ''w1''), (''worker_name'', JStr ''worker'')]"

definition sampleServer :: "nat \<Rightarrow> nat \<Rightarrow> request \<Rightarrow> Response option" where
  "sampleServer ready t r =
     (case req_method r of
        POST \<Rightarrow> Some \<lparr>status = 202, body = Some (JObj [(''id'', JStr ''job1'')])\<rparr>
      | DELETE \<Rightarrow> Some \<lparr>status = 200, body = Some (JObj [(''generations'', JArr [sampleGeneration])])\<rparr>
      | GET \<Rightarrow>
          if req_url r = ''https://horde.example/api/v2/generate/check/job1'' then
            Some \<lparr>status = 200,
                  body = Some (JObj [(''wait_time'', JNum 3), (''done'', JBool (ready \<le> t))])\<rparr>
          else
            Some \<lparr>status = 200, body = Some (JObj [(''generations'', JArr [sampleGeneration])])\<rparr>)"

definition sampleEnv :: "nat \<Rightarrow> (nat \<Rightarrow> bool) \<Rightarrow> env" where
  "sampleEnv ready pressed =
     \<lparr> baseURL = ''https://horde.example'', apiKey = ''0000000000'', useWorker = ''None'',
       allowLargerParams = ''Disabled'', MODELS_DB_URL = ''https://db.example/db.json'',
       respond = sampleServer ready, cancel_at = pressed,
       randomIndex = (\<lambda>t len. 0), numberToString = (\<lambda>r. ''#''),
       getNewImageID = length, correctOutputIDs = (\<lambda>xs. xs),
       saveImages = (\<lambda>p. p) \<rparr>"

definition quietEnv :: env where
  "quietEnv = sampleEnv 0 (\<lambda>t. False)"

definition sampleImageData :: ImageData where
  "sampleImageData =
     \<lparr> img_id = 0, image = ''data:image/webp;base64,AAAA'', img_prompt = Some ''a cat ### blurry'',
       modelName = JStr ''stable_diffusion'', workerID = JStr ''w1'', workerName = JStr ''worker'',
       img_seed = JStr ''42'', img_steps = Some (Num 30), img_sampler_name = Some ''k_euler'',
       img_width = Some (Num 512), img_height = Some (Num 512), img_cfg_scale = Some (Num 7),
       img_karras = Some True, img_post_processing = Some [], starred = False \<rparr>"

definition sampleInput :: "string list \<Rightarrow> GenerationInput" where
  "sampleInput pp =
     \<lparr> gi_prompt = ''a cat'',
       gi_params = Some (getDefaultStore\<lparr>post_processing := Some pp\<rparr>),
       gi_nsfw = True, censor_nsfw = False, trusted_workers = False,
       source_image = None, source_mask = None, source_processing = None,
       workers = None, models = [JStr ''stable_diffusion''] \<rparr>"

definition catStore :: store where
  "catStore = initialStore\<lparr>prompt := ''a cat''\<rparr>"

text \<open>A server that answers every request with status 500 and an error body.\<close>

definition failingEnv :: env where
  "failingEnv =
     quietEnv\<lparr>respond := (\<lambda>t r. Some \<lparr>status = 500, body = Some (JObj [(''message'', JStr ''boom'')])\<rparr>)\<rparr>"

text \<open>A store in which \<open>job1\<close> is queued and still running.\<close>

definition pollingStore :: store where
  "pollingStore =
     catStore\<lparr> generating := True,
                queue := [\<lparr>cached = sampleInput [], job_id = JStr ''job1'', waitData = JUndefined\<rparr>] \<rparr>"

text \<open>
  A server for the model registry: two live models, and a database of two entries of
  which only the first is live.
\<close>

definition liveModelsBody :: jsval where
  "liveModelsBody =
     JArr [JObj [(''name'', JStr ''stable_diffusion''), (''count'', JNum 5),
                 (''performance'', JNum 9), (''eta'', JNum 12), (''queued'', JNum 3)],
           JObj [(''name'', JStr ''waifu''), (''count'', JNum 8),
                 (''performance'', JNum 7), (''eta'', JNum 20), (''queued'', JNum 1)]]"

definition modelsDBBody :: "(string \<times> jsval) list" where
  "modelsDBBody =
     [(''stable_diffusion'',
       JObj [(''name'', JStr ''stable_diffusion''), (''description'', JStr ''Generalist''),
             (''style'', JStr ''generalist''), (''nsfw'', JBool False), (''type'', JStr ''ckpt'')]),
      (''anything'',
       JObj [(''name'', JStr ''anything''), (''description'', JStr ''Anime''),
             (''style'', JStr ''anime''), (''nsfw'', JBool False), (''type'', JStr ''ckpt'')])]"

definition registryEnv :: env where
  "registryEnv =
     quietEnv\<lparr>respond := (\<lambda>t r.
       if req_url r = ''https://db.example/db.json''
       then Some \<lparr>status = 200, body = Some (JObj modelsDBBody)\<rparr>
       else Some \<lparr>status = 200, body = Some liveModelsBody\<rparr>)\<rparr>"

text \<open>The sample server with Cancel pressed during suspension \<open>k\<close>.\<close>

definition pressedEnv :: "nat \<Rightarrow> nat \<Rightarrow> env" where
  "pressedEnv ready k = sampleEnv ready (\<lambda>t. t = k)"

text \<open>A server behind a gateway that answers with a page that is not JSON.\<close>

definition badGatewayEnv :: env where
  "badGatewayEnv = quietEnv\<lparr>respond := (\<lambda>t r. Some \<lparr>status = 502, body = None\<rparr>)\<rparr>"



section \<open>Basic facts\<close>

lemma validateResponse_True:
  "Single (status response) = goodStatus \<Longrightarrow> truthy json \<Longrightarrow>
   validateResponse env response json goodStatus msg s = (Return True, s)"
  by (simp add: validateResponse_def)

lemma getProp_Inr: "j \<noteq> JNull \<Longrightarrow> j \<noteq> JUndefined \<Longrightarrow> \<exists>v. getProp j k = Inr v"
  by (cases j) auto

lemma validateResponse_False:
  assumes "\<not> (Single (status response) = goodStatus \<and> truthy json)"
    and "json \<noteq> JNull" and "json \<noteq> JUndefined"
  shows "\<exists>m. validateResponse env response json goodStatus msg s
             = (Return False, snd (onInvalidResponse m s))"
proof -
  obtain a where a: "getProp json ''message'' = Inr a"
    using getProp_Inr [OF assms(2,3)] by blast
  obtain b where b: "getProp json ''errors'' = Inr b"
    using getProp_Inr [OF assms(2,3)] by blast
  show ?thesis
    using assms(1) a b
    by (auto simp add: validateResponse_def returned_def onInvalidResponse_def)
qed

lemma requestsOf_append [simp]: "requestsOf (xs @ ys) = requestsOf xs @ requestsOf ys"
  by (induction xs rule: requestsOf.induct) auto

lemma trace_emit [simp]: "trace (emit e s) = trace s @ [e]"
  by (simp add: emit_def)

lemma params_emit [simp]: "params (emit e s) = params s"
  by (simp add: emit_def)

lemma sleepsOf_append [simp]: "sleepsOf (xs @ ys) = sleepsOf xs @ sleepsOf ys"
  by (induction xs rule: sleepsOf.induct) auto

lemma emit_fields [simp]:
  "queue (emit e s) = queue s" "generating (emit e s) = generating s"
  "cancelled (emit e s) = cancelled s" "clock (emit e s) = clock s"
  "outputs (emit e s) = outputs s" "images (emit e s) = images s"
  by (simp_all add: emit_def)

lemma tick_fields [simp]:
  "queue (tick env s) = queue s" "generating (tick env s) = generating s"
  "trace (tick env s) = trace s" "clock (tick env s) = Suc (clock s)"
  "outputs (tick env s) = outputs s" "images (tick env s) = images s"
  "cancelled (tick env s) = (cancelled s \<or> cancel_at env (clock s))"
  by (simp_all add: tick_def)

lemma sleep_fields [simp]:
  "queue (sleep env ms s) = queue s" "generating (sleep env ms s) = generating s"
  "trace (sleep env ms s) = trace s @ [Sleep ms]" "clock (sleep env ms s) = Suc (clock s)"
  "outputs (sleep env ms s) = outputs s"
  "cancelled (sleep env ms s) = (cancelled s \<or> cancel_at env (clock s))"
  by (simp_all add: sleep_def)

lemma onInvalidResponse_fields [simp]:
  "fst (onInvalidResponse m s) = False"
  "queue (snd (onInvalidResponse m s)) = queue s"
  "generating (snd (onInvalidResponse m s)) = generating s"
  "clock (snd (onInvalidResponse m s)) = clock s"
  "outputs (snd (onInvalidResponse m s)) = outputs s"
  "cancelled (snd (onInvalidResponse m s)) = False"
  "images (snd (onInvalidResponse m s)) = []"
  "trace (snd (onInvalidResponse m s)) = trace s @ [RaiseError m False, SetProgress 0]"
  by (simp_all add: onInvalidResponse_def emit_def)

lemma validateResponse_cases:
  obtains (valid) "Single (status response) = goodStatus" "truthy json"
      "validateResponse env response json goodStatus msg s = (Return True, s)"
  | (invalid) m where "\<not> (Single (status response) = goodStatus \<and> truthy json)"
      "validateResponse env response json goodStatus msg s
         = (Return False, snd (onInvalidResponse m s))"
  | (throws) "json = JNull \<or> json = JUndefined"
      "validateResponse env response json goodStatus msg s = (Throw TypeError, s)"
proof (cases "Single (status response) = goodStatus \<and> truthy json")
  case True
  then show ?thesis using valid by (simp add: validateResponse_def)
next
  case False
  show ?thesis
  proof (cases "json = JNull \<or> json = JUndefined")
    case True
    then show ?thesis using throws by (auto simp add: validateResponse_def)
  next
    case n: False
    then obtain m where "validateResponse env response json goodStatus msg s
             = (Return False, snd (onInvalidResponse m s))"
      using validateResponse_False [OF False, of env msg s] by auto
    then show ?thesis using invalid False by blast
  qed
qed

lemma validateResponse_result:
  assumes "validateResponse env response json goodStatus msg s = (x, s')"
  shows "(x = Return True \<longrightarrow> s' = s \<and> truthy json \<and> Single (status response) = goodStatus)
       \<and> (x = Return False \<longrightarrow> \<not> cancelled s')
       \<and> sleepsOf (trace s') = sleepsOf (trace s)
       \<and> queue s' = queue s \<and> generating s' = generating s \<and> outputs s' = outputs s
       \<and> clock s' = clock s \<and> requestsOf (trace s') = requestsOf (trace s)"
  using assms
  by (cases rule: validateResponse_cases [of response goodStatus json env msg s]) auto

lemma fetch_frame:
  assumes "fetch env r s = (x, s')"
  shows "queue s' = queue s \<and> generating s' = generating s \<and> outputs s' = outputs s
     \<and> clock s' = Suc (clock s) \<and> trace s' = trace s @ [Http r]
     \<and> (cancelled s \<longrightarrow> cancelled s')"
  using assms by (auto simp add: fetch_def split: option.splits)

lemma response_json_frame:
  assumes "response_json env r s = (x, s')"
  shows "queue s' = queue s \<and> generating s' = generating s \<and> outputs s' = outputs s
     \<and> clock s' = Suc (clock s) \<and> trace s' = trace s
     \<and> (cancelled s \<longrightarrow> cancelled s')"
  using assms by (auto simp add: response_json_def split: option.splits)


lemma andThen_split:
  "P (andThen m f) \<longleftrightarrow>
     (\<forall>e s. m = (Throw e, s) \<longrightarrow> P (Throw e, s)) \<and> (\<forall>x s. m = (Return x, s) \<longrightarrow> P (f x s))"
proof (cases m)
  case (Pair a b)
  then show ?thesis by (cases a) auto
qed

lemma andThen_split_asm:
  "P (andThen m f) \<longleftrightarrow>
     \<not> ((\<exists>e s. m = (Throw e, s) \<and> \<not> P (Throw e, s)) \<or> (\<exists>x s. m = (Return x, s) \<and> \<not> P (f x s)))"
  by (simp add: andThen_split [of P])

lemma checkImage_requested:
  "requested (checkRequest env imageID) s (snd (checkImage env imageID s))"
  by (auto simp add: checkImage_def requested_def split: andThen_split
      dest!: fetch_frame response_json_frame validateResponse_result)

lemma cancelImage_requested:
  "requested (cancelRequest env imageID) s (snd (cancelImage env imageID s))"
  by (auto simp add: cancelImage_def requested_def split: andThen_split sum.splits
      dest!: fetch_frame response_json_frame validateResponse_result)

lemma getImageStatus_requested:
  "requested (statusRequest env imageID) s (snd (getImageStatus env imageID s))"
  by (auto simp add: getImageStatus_def requested_def split: andThen_split sum.splits
      dest!: fetch_frame response_json_frame validateResponse_result)

lemma fetchNewID_requested:
  "requested (newIDRequest env p) s (snd (fetchNewID env p s))"
  by (auto simp add: fetchNewID_def requested_def split: andThen_split
      dest!: fetch_frame response_json_frame validateResponse_result)


lemma foldl_emit:
  "foldl (\<lambda>s' el. emit (f el) s') s xs = s\<lparr>trace := trace s @ map f xs\<rparr>"
  by (induction xs arbitrary: s) (simp_all add: emit_def)

lemma generationFailed_eq:
  "generationFailed env s =
     ([], s\<lparr> generating := False, queue := [],
            trace := trace s @ map (\<lambda>el. Http (cancelRequest env (job_id el))) (queue s) \<rparr>)"
  by (simp add: generationFailed_def foldl_emit)

lemma requestsOf_map_Http [simp]: "requestsOf (map (\<lambda>x. Http (f x)) xs) = map f xs"
  by (induction xs) simp_all

lemma generationFailed_fields [simp]:
  "fst (generationFailed env s) = []"
  "generating (snd (generationFailed env s)) = False"
  "queue (snd (generationFailed env s)) = []"
  "cancelled (snd (generationFailed env s)) = cancelled s"
  "outputs (snd (generationFailed env s)) = outputs s"
  "clock (snd (generationFailed env s)) = clock s"
  "trace (snd (generationFailed env s))
     = trace s @ map (\<lambda>el. Http (cancelRequest env (job_id el))) (queue s)"
  by (simp_all add: generationFailed_eq)


lemma checkImage_Return:
  assumes "checkImage env imageID s = (Return st, s')"
  shows "(cancelled s \<longrightarrow> st = cancelledStatus \<and> cancelled s')
       \<and> (\<not> truthy st \<longrightarrow> st = JBool False \<and> \<not> cancelled s')
       \<and> sleepsOf (trace s') = sleepsOf (trace s)"
  using assms
  by (auto simp add: checkImage_def cancelledStatus_def split: andThen_split_asm if_splits
      dest!: fetch_frame response_json_frame validateResponse_result)

lemma cancelImage_Return:
  assumes "cancelImage env imageID s = (Return v, s')"
  shows "(truthy v \<longrightarrow> cancelled s \<longrightarrow> cancelled s')
       \<and> sleepsOf (trace s') = sleepsOf (trace s)"
  using assms
  by (auto simp add: cancelImage_def split: andThen_split_asm if_splits sum.splits
      dest!: fetch_frame response_json_frame validateResponse_result)


lemma map_job_id_update:
  "map job_id (xs[i := (xs ! i)\<lparr>waitData := st\<rparr>]) = map job_id xs"
  by (cases "i < length xs") (simp_all add: map_update list_update_same_conv list_update_beyond)

lemma pollJobs_step:
  assumes "pollJobs env (i # is) s = (x, s')" and "\<not> isDone (queue s ! i)"
  obtains (threw) e where "checkImage env (job_id (queue s ! i)) s = (Throw e, s')" "x = Throw e"
  | (failed) s1 where "checkImage env (job_id (queue s ! i)) s = (Return (JBool False), s1)"
      "x = Return (EarlyReturn (fst (generationFailed env s1)))" "s' = snd (generationFailed env s1)"
      "\<not> cancelled s1"
  | (checked) st s1 where "checkImage env (job_id (queue s ! i)) s = (Return st, s1)" "truthy st"
      "pollJobs env is (s1\<lparr>queue := (queue s1)[i := (queue s1 ! i)\<lparr>waitData := st\<rparr>]\<rparr>) = (x, s')"
proof (cases "checkImage env (job_id (queue s ! i)) s")
  case (Pair a s1)
  show ?thesis
  proof (cases a)
    case (Throw e)
    then show ?thesis using assms Pair threw by simp
  next
    case (Return st)
    show ?thesis
    proof (cases "truthy st")
      case True
      then show ?thesis using assms Pair Return checked by simp
    next
      case False
      then have "st = JBool False" "\<not> cancelled s1"
        using checkImage_Return [of env "job_id (queue s ! i)" s st s1] Pair Return by auto
      then show ?thesis using assms Pair Return failed [of s1] by simp
    qed
  qed
qed

lemma pollJobs_Completed:
  assumes "pollJobs env is s = (Return (Completed u), s')" and "distinct is"
  shows "map job_id (queue s') = map job_id (queue s)
       \<and> (\<forall>j. j \<notin> set is \<longrightarrow> queue s' ! j = queue s ! j)
       \<and> generating s' = generating s \<and> outputs s' = outputs s
       \<and> (cancelled s \<longrightarrow> cancelled s') \<and> clock s \<le> clock s'
       \<and> sleepsOf (trace s') = sleepsOf (trace s)
       \<and> requestsOf (trace s')
           = requestsOf (trace s)
               @ map (\<lambda>i. checkRequest env (job_id (queue s ! i)))
                   (filter (\<lambda>i. \<not> isDone (queue s ! i)) is)"
  using assms
proof (induction "is" arbitrary: s)
  case Nil
  then show ?case by simp
next
  case (Cons i "is")
  have d: "distinct is" "i \<notin> set is"
    using Cons.prems(2) by simp_all
  show ?case
  proof (cases "isDone (queue s ! i)")
    case True
    then have "pollJobs env is s = (Return (Completed u), s')"
      using Cons.prems(1) by simp
    from Cons.IH [OF this d(1)] True show ?thesis by auto
  next
    case False
    from Cons.prems(1) False show ?thesis
    proof (cases rule: pollJobs_step)
      case (threw e)
      then show ?thesis by simp
    next
      case (failed s1)
      then show ?thesis by simp
    next
      case (checked st s1)
      let ?s2 = "s1\<lparr>queue := (queue s1)[i := (queue s1 ! i)\<lparr>waitData := st\<rparr>]\<rparr>"
      have r: "requested (checkRequest env (job_id (queue s ! i))) s s1"
        using checkImage_requested [of env "job_id (queue s ! i)" s] checked(1) by simp
      have c: "cancelled s \<longrightarrow> cancelled s1" "sleepsOf (trace s1) = sleepsOf (trace s)"
        using checkImage_Return [OF checked(1)] by auto
      have q: "queue s1 = queue s"
        using r by (simp add: requested_def)
      have same: "\<And>j. j \<in> set is \<Longrightarrow> queue ?s2 ! j = queue s ! j"
      proof -
        fix j assume "j \<in> set is"
        then have "i \<noteq> j" using d(2) by auto
        then show "queue ?s2 ! j = queue s ! j"
          using q by (simp add: nth_list_update_neq)
      qed
      have eq: "map (\<lambda>j. checkRequest env (job_id (queue ?s2 ! j)))
                  (filter (\<lambda>j. \<not> isDone (queue ?s2 ! j)) is)
              = map (\<lambda>j. checkRequest env (job_id (queue s ! j)))
                  (filter (\<lambda>j. \<not> isDone (queue s ! j)) is)"
      proof -
        have "filter (\<lambda>j. \<not> isDone (queue ?s2 ! j)) is = filter (\<lambda>j. \<not> isDone (queue s ! j)) is"
          using same by (intro filter_cong) auto
        moreover have "\<And>j. j \<in> set (filter (\<lambda>j. \<not> isDone (queue s ! j)) is)
            \<Longrightarrow> checkRequest env (job_id (queue ?s2 ! j)) = checkRequest env (job_id (queue s ! j))"
          using same by simp
        ultimately show ?thesis
          by (simp cong: map_cong)
      qed
      have ih: "map job_id (queue s') = map job_id (queue ?s2)
       \<and> (\<forall>j. j \<notin> set is \<longrightarrow> queue s' ! j = queue ?s2 ! j)
       \<and> generating s' = generating ?s2 \<and> outputs s' = outputs ?s2
       \<and> (cancelled ?s2 \<longrightarrow> cancelled s') \<and> clock ?s2 \<le> clock s'
       \<and> sleepsOf (trace s') = sleepsOf (trace ?s2)
       \<and> requestsOf (trace s')
           = requestsOf (trace ?s2)
               @ map (\<lambda>i. checkRequest env (job_id (queue ?s2 ! i)))
                   (filter (\<lambda>i. \<not> isDone (queue ?s2 ! i)) is)"
        using Cons.IH [OF checked(3) d(1)] .
      have m: "map job_id (queue ?s2) = map job_id (queue s)"
        using q by (simp add: map_job_id_update)
      have other: "\<forall>j. j \<notin> set (i # is) \<longrightarrow> queue ?s2 ! j = queue s ! j"
        using q by (simp add: nth_list_update_neq)
      show ?thesis
        using ih r c m other False unfolding eq
        by (auto simp add: requested_def)
    qed
  qed
qed


lemma startsWith_append [simp]: "startsWith p (p @ u)"
  by (simp add: startsWith_def)

lemma documented_requests [simp]:
  "documentedEndpoint env (newIDRequest env p)"
  "documentedEndpoint env (checkRequest env i)"
  "documentedEndpoint env (statusRequest env i)"
  "documentedEndpoint env (cancelRequest env i)"
  "documentedEndpoint env (modelsRequest env)"
  "documentedEndpoint env (modelsDBRequest env)"
  using startsWith_append [of "baseURL env @ ''/api/v2/generate/check/''" "toString (numberToString env) i"]
    startsWith_append [of "baseURL env @ ''/api/v2/generate/status/''" "toString (numberToString env) i"]
  by (simp_all add: documentedEndpoint_def newIDRequest_def checkRequest_def statusRequest_def
      cancelRequest_def modelsRequest_def modelsDBRequest_def)

lemma sleepsOf_map_Http [simp]: "sleepsOf (map (\<lambda>x. Http (f x)) xs) = []"
  by (induction xs) simp_all

lemma addsRequests_refl [simp]: "addsRequests P s s"
  by (simp add: addsRequests_def)

lemma addsRequests_same: "requestsOf (trace s') = requestsOf (trace s) \<Longrightarrow> addsRequests P s s'"
  by (simp add: addsRequests_def)

lemma addsRequests_trans:
  "addsRequests P s s1 \<Longrightarrow> addsRequests P s1 s2 \<Longrightarrow> addsRequests P s s2"
  by (auto simp add: addsRequests_def)

lemma addsRequests_requested: "requested r s s' \<Longrightarrow> P r \<Longrightarrow> addsRequests P s s'"
  by (simp add: addsRequests_def requested_def)

lemma addsRequests_generationFailed:
  "addsRequests (documentedEndpoint env) s (snd (generationFailed env s))"
  by (simp add: addsRequests_def list_all_iff)

lemma pollJobs_any:
  assumes "pollJobs env is s = (x, s')"
  shows "addsRequests (documentedEndpoint env) s s'
       \<and> sleepsOf (trace s') = sleepsOf (trace s) \<and> outputs s' = outputs s
       \<and> (\<forall>r. x = Return (EarlyReturn r) \<longrightarrow>
            (\<exists>s1. r = fst (generationFailed env s1) \<and> s' = snd (generationFailed env s1)
                 \<and> map job_id (queue s1) = map job_id (queue s)))
       \<and> (cancelled s \<longrightarrow> (\<forall>y. x = Return y \<longrightarrow> y = Completed ()))"
  using assms
proof (induction "is" arbitrary: s)
  case Nil
  then show ?case by auto
next
  case (Cons i "is")
  show ?case
  proof (cases "isDone (queue s ! i)")
    case True
    then have "pollJobs env is s = (x, s')"
      using Cons.prems by simp
    from Cons.IH [OF this] show ?thesis .
  next
    case False
    have r: "requested (checkRequest env (job_id (queue s ! i))) s
               (snd (checkImage env (job_id (queue s ! i)) s))"
      by (rule checkImage_requested)
    from Cons.prems False show ?thesis
    proof (cases rule: pollJobs_step)
      case (threw e)
      then show ?thesis
        using r addsRequests_requested [OF r] by (simp add: requested_def)
    next
      case (failed s1)
      have a: "addsRequests (documentedEndpoint env) s s1"
        using r failed(1) addsRequests_requested [OF r] by simp
      have b: "addsRequests (documentedEndpoint env) s1 s'"
        using failed(3) addsRequests_generationFailed by simp
      have c: "cancelled s \<longrightarrow> JBool False = cancelledStatus"
        using checkImage_Return [OF failed(1)] by simp
      show ?thesis
        using addsRequests_trans [OF a b] r failed c
        by (auto simp add: requested_def cancelledStatus_def)
    next
      case (checked st s1)
      let ?s2 = "s1\<lparr>queue := (queue s1)[i := (queue s1 ! i)\<lparr>waitData := st\<rparr>]\<rparr>"
      have a: "addsRequests (documentedEndpoint env) s s1"
        using r checked(1) addsRequests_requested [OF r] by simp
      have a2: "addsRequests (documentedEndpoint env) s1 ?s2"
        by (simp add: addsRequests_same)
      have q: "queue s1 = queue s" "sleepsOf (trace s1) = sleepsOf (trace s)" "outputs s1 = outputs s"
        using r checked(1) by (simp_all add: requested_def)
      have c: "cancelled s \<longrightarrow> cancelled ?s2"
        using checkImage_Return [OF checked(1)] by simp
      have m: "map job_id (queue ?s2) = map job_id (queue s)"
        using q by (simp add: map_job_id_update)
      from Cons.IH [OF checked(3)] show ?thesis
        using addsRequests_trans [OF addsRequests_trans [OF a a2]] q c m by auto
    qed
  qed
qed



section \<open>Response validation on a missing body\<close>

text \<open>
  C1. \<^verbatim>\<open>validateResponse\<close> is documented to return false and raise an error for every
  response that is not valid. On a body that is null or undefined it does neither:
  whatever the status and the expected status, the read of \<^verbatim>\<open>json.message\<close> throws a
  TypeError, and the store (and with it the trace of raised errors) is as before.
\<close>

theorem validateResponse_missing_body_throws:
  "validateResponse env response JNull goodStatus msg s = (Throw TypeError, s) \<and>
   validateResponse env response JUndefined goodStatus msg s = (Throw TypeError, s)"
  by (simp add: validateResponse_def)

section \<open>The empty prompt\<close>

text \<open>
  C8. With the empty prompt, \<^verbatim>\<open>generateImage\<close> returns the empty list at once for
  every generator type, and the store is exactly as before: no request in the trace,
  the queue and the \<open>generating\<close> flag untouched.
\<close>

theorem generateImage_empty_prompt:
  "generateImage env ty (s\<lparr>prompt := []\<rparr>) = Some (Return [], s\<lparr>prompt := []\<rparr>)"
  by (simp add: generateImage_def)

section \<open>A status check after cancellation\<close>

text \<open>
  C9 (as amended). When the fetch of \<^verbatim>\<open>checkImage\<close> resolves with a JSON body and the
  \<open>cancelled\<close> flag is set when the function reads it (it was set before the call, or
  Cancel is pressed during one of the two suspensions of the call), then whatever the
  status and whatever the body says, \<^verbatim>\<open>checkImage\<close> returns the fixed record
  \<^verbatim>\<open>{ wait_time: 0, done: false }\<close>, whose \<open>done\<close> is not truthy, and adds nothing to the
  trace but its own request: no error is raised. The flag is read only after the body
  has been parsed: a fetch that rejects and a body that is not JSON make the call throw,
  with the flag set or not.
\<close>

theorem checkImage_cancelled:
  "(\<forall>response resJSON.
       respond env (clock s) (checkRequest env imageID) = Some response
       \<and> body response = Some resJSON
       \<and> (cancelled s \<or> cancel_at env (clock s) \<or> cancel_at env (Suc (clock s))) \<longrightarrow>
       (\<exists>s'. checkImage env imageID s = (Return cancelledStatus, s')
            \<and> trace s' = trace s @ [Http (checkRequest env imageID)]
            \<and> queue s' = queue s \<and> cancelled s'
            \<and> \<not> truthy (getPropOpt cancelledStatus ''done'')))
   \<and> (respond env (clock s) (checkRequest env imageID) = None \<longrightarrow>
         fst (checkImage env imageID s) = Throw NetworkError)
   \<and> (\<forall>response.
         respond env (clock s) (checkRequest env imageID) = Some response
         \<and> body response = None \<longrightarrow>
         fst (checkImage env imageID s) = Throw SyntaxError)"
proof -
  have a: "\<forall>response resJSON.
       respond env (clock s) (checkRequest env imageID) = Some response
       \<and> body response = Some resJSON
       \<and> (cancelled s \<or> cancel_at env (clock s) \<or> cancel_at env (Suc (clock s))) \<longrightarrow>
       (\<exists>s'. checkImage env imageID s = (Return cancelledStatus, s')
            \<and> trace s' = trace s @ [Http (checkRequest env imageID)]
            \<and> queue s' = queue s \<and> cancelled s'
            \<and> \<not> truthy (getPropOpt cancelledStatus ''done''))"
    by (auto simp add: checkImage_def fetch_def response_json_def tick_def emit_def
          cancelledStatus_def getPropOpt_def)
  have b: "respond env (clock s) (checkRequest env imageID) = None \<longrightarrow>
         fst (checkImage env imageID s) = Throw NetworkError"
    by (simp add: checkImage_def fetch_def)
  have c: "\<forall>response.
         respond env (clock s) (checkRequest env imageID) = Some response
         \<and> body response = None \<longrightarrow>
         fst (checkImage env imageID s) = Throw SyntaxError"
    by (simp add: checkImage_def fetch_def response_json_def)
  from a b c show ?thesis
    by (intro conjI) assumption+
qed

theorem checkImage_cancelled_witness:
  "respond (pressedEnv 0 1) (clock initialStore) (checkRequest (pressedEnv 0 1) (JStr ''job1''))
     = Some \<lparr>status = 200, body = Some (JObj [(''wait_time'', JNum 3), (''done'', JBool True)])\<rparr>
   \<and> cancel_at (pressedEnv 0 1) (Suc (clock initialStore))
   \<and> fst (checkImage (pressedEnv 0 1) (JStr ''job1'') initialStore) = Return cancelledStatus
   \<and> trace (snd (checkImage (pressedEnv 0 1) (JStr ''job1'') initialStore))
       = [Http (checkRequest (pressedEnv 0 1) (JStr ''job1''))]
   \<and> cancelled (snd (checkImage (pressedEnv 0 1) (JStr ''job1'') initialStore))"
proof -
  have r: "respond (pressedEnv 0 1) (clock initialStore)
       (checkRequest (pressedEnv 0 1) (JStr ''job1''))
     = Some \<lparr>status = 200, body = Some (JObj [(''wait_time'', JNum 3), (''done'', JBool True)])\<rparr>"
    by (simp add: pressedEnv_def sampleEnv_def sampleServer_def checkRequest_def initialStore_def)
  have b: "body \<lparr>status = 200, body = Some (JObj [(''wait_time'', JNum 3), (''done'', JBool True)])\<rparr>
     = Some (JObj [(''wait_time'', JNum 3), (''done'', JBool True)])"
    by simp
  have p: "cancel_at (pressedEnv 0 1) (Suc (clock initialStore))"
    by (simp add: pressedEnv_def sampleEnv_def initialStore_def)
  then have c: "cancelled initialStore \<or> cancel_at (pressedEnv 0 1) (clock initialStore)
        \<or> cancel_at (pressedEnv 0 1) (Suc (clock initialStore))"
    by simp
  have t: "trace initialStore = []"
    by (simp add: initialStore_def)
  from checkImage_cancelled [of "pressedEnv 0 1" initialStore "JStr ''job1''",
      THEN conjunct1, rule_format, OF conjI [OF r conjI [OF b c]]]
  obtain s' where s': "checkImage (pressedEnv 0 1) (JStr ''job1'') initialStore
       = (Return cancelledStatus, s')"
    "trace s' = trace initialStore @ [Http (checkRequest (pressedEnv 0 1) (JStr ''job1''))]"
    "cancelled s'"
    by (elim exE conjE)
  have r1: "fst (checkImage (pressedEnv 0 1) (JStr ''job1'') initialStore) = Return cancelledStatus"
    using s'(1) by simp
  have r2: "trace (snd (checkImage (pressedEnv 0 1) (JStr ''job1'') initialStore))
       = [Http (checkRequest (pressedEnv 0 1) (JStr ''job1''))]"
    using s'(1,2) t by simp
  have r3: "cancelled (snd (checkImage (pressedEnv 0 1) (JStr ''job1'') initialStore))"
    using s'(1,3) by simp
  from r p r1 r2 r3 show ?thesis
    by (intro conjI)
qed

text \<open>
  With the flag set, an answer whose body is not JSON makes \<^verbatim>\<open>checkImage\<close> throw: it
  does not return the fixed record.
\<close>

theorem checkImage_cancelled_non_json_body_throws:
  "cancelled (initialStore\<lparr>cancelled := True\<rparr>)
   \<and> respond badGatewayEnv 0 (checkRequest badGatewayEnv (JStr ''job1''))
       = Some \<lparr>status = 502, body = None\<rparr>
   \<and> fst (checkImage badGatewayEnv (JStr ''job1'') (initialStore\<lparr>cancelled := True\<rparr>))
       = Throw SyntaxError"
  by (simp add: checkImage_def fetch_def response_json_def badGatewayEnv_def quietEnv_def
        sampleEnv_def initialStore_def)

section \<open>Range validation in generateText2Img\<close>

lemma params_openGenerator [simp]: "params (openGenerator s) = params s"
  by (simp add: openGenerator_def)
lemma trace_openGenerator [simp]: "trace (openGenerator s) = trace s @ [SetActiveCollapse [''2''], SetActiveIndex ''/'', RouterPush ''/'']"
  by (simp add: openGenerator_def)

lemma loadPrompt_frame [simp]: "params (loadPrompt d s) = params s" "trace (loadPrompt d s) = trace s"
  by (simp_all add: loadPrompt_def Let_def)
lemma loadSampler_frame [simp]:
  "steps (params (loadSampler d s)) = steps (params s)"
  "width (params (loadSampler d s)) = width (params s)"
  "height (params (loadSampler d s)) = height (params s)"
  "trace (loadSampler d s) = trace s"
  by (simp_all add: loadSampler_def)
lemma loadCfgScale_frame [simp]:
  "steps (params (loadCfgScale d s)) = steps (params s)"
  "width (params (loadCfgScale d s)) = width (params s)"
  "height (params (loadCfgScale d s)) = height (params s)"
  "trace (loadCfgScale d s) = trace s"
  by (simp_all add: loadCfgScale_def)
lemma loadSeed_frame [simp]:
  "steps (params (loadSeed d s)) = steps (params s)"
  "width (params (loadSeed d s)) = width (params s)"
  "height (params (loadSeed d s)) = height (params s)"
  "trace (loadSeed d s) = trace s"
  by (simp_all add: loadSeed_def)
lemma loadKarras_frame [simp]:
  "steps (params (loadKarras d s)) = steps (params s)"
  "width (params (loadKarras d s)) = width (params s)"
  "height (params (loadKarras d s)) = height (params s)"
  "trace (loadKarras d s) = trace s"
  by (simp_all add: loadKarras_def)
lemma loadPostProcessing_frame [simp]:
  "params (loadPostProcessing d s) = params s"
  "trace (loadPostProcessing d s) = trace s"
  by (simp_all add: loadPostProcessing_def)
lemma loadModelName_frame [simp]:
  "params (loadModelName d s) = params s"
  "trace (loadModelName d s) = trace s"
  by (simp_all add: loadModelName_def)

lemma loadSteps_eff [simp]:
  "steps (params (loadSteps env d s)) = stored (img_steps d) (maxSteps env) (Num 30) (steps (params s))"
  "width (params (loadSteps env d s)) = width (params s)"
  "height (params (loadSteps env d s)) = height (params s)"
  "trace (loadSteps env d s) = trace s @ warned env ''steps'' (img_steps d) (maxSteps env)"
  by (simp_all add: loadSteps_def validateParam_def stored_def warned_def getDefaultStore_def truthyOpt_def split: option.splits)
lemma loadWidth_eff [simp]:
  "steps (params (loadWidth env d s)) = steps (params s)"
  "width (params (loadWidth env d s)) = stored (img_width d) (maxDimensions env) (Num 512) (width (params s))"
  "height (params (loadWidth env d s)) = height (params s)"
  "trace (loadWidth env d s) = trace s @ warned env ''width'' (img_width d) (maxDimensions env)"
  by (simp_all add: loadWidth_def validateParam_def stored_def warned_def getDefaultStore_def truthyOpt_def split: option.splits)
lemma loadHeight_eff [simp]:
  "steps (params (loadHeight env d s)) = steps (params s)"
  "width (params (loadHeight env d s)) = width (params s)"
  "height (params (loadHeight env d s)) = stored (img_height d) (maxDimensions env) (Num 512) (height (params s))"
  "trace (loadHeight env d s) = trace s @ warned env ''height'' (img_height d) (maxDimensions env)"
  by (simp_all add: loadHeight_def validateParam_def stored_def warned_def getDefaultStore_def truthyOpt_def split: option.splits)

lemma generateText2Img_effect: 
  "steps (params (generateText2Img env d s)) = stored (img_steps d) (maxSteps env) (Num 30) (steps (params s))"
  "width (params (generateText2Img env d s)) = stored (img_width d) (maxDimensions env) (Num 512) (width (params s))"
  "height (params (generateText2Img env d s)) = stored (img_height d) (maxDimensions env) (Num 512) (height (params s))"
  "trace (generateText2Img env d s) = trace s @ [SetActiveCollapse [''2''], SetActiveIndex ''/'', RouterPush ''/'']
      @ warned env ''steps'' (img_steps d) (maxSteps env)
      @ warned env ''width'' (img_width d) (maxDimensions env)
      @ warned env ''height'' (img_height d) (maxDimensions env)"
  by (simp_all add: generateText2Img_def)

lemma stored_divisible:
  "divisibleBy64 dflt \<Longrightarrow> divisibleBy64 old \<Longrightarrow> (\<forall>v. given = Some v \<longrightarrow> divisibleBy64 v) \<Longrightarrow> divisibleBy64 (stored given cap dflt old)"
  by (simp add: stored_def split: option.splits)

text \<open>
  C4 (as amended). For every gallery entry passed to \<^verbatim>\<open>generateText2Img\<close>: a truthy steps
  value above the steps cap (50, or 500 when larger parameters are allowed) is replaced
  by 30, a truthy width or height above the dimension cap (1024, or 3072) by 512, each
  with one warning; a truthy value within its cap is stored as given, and an absent or
  falsy one leaves the store as it was. No divisibility check is made: the stored width
  (height) is divisible by 64 when the previous and the supplied value are.
\<close>

theorem generateText2Img_range_validation:
  "steps (params (generateText2Img env d s))
     = (case img_steps d of
          None \<Rightarrow> steps (params s)
        | Some v \<Rightarrow> if numTruthy v then (if numGreater v (maxSteps env) then Num 30 else v)
                    else steps (params s))
   \<and> width (params (generateText2Img env d s))
     = (case img_width d of
          None \<Rightarrow> width (params s)
        | Some v \<Rightarrow> if numTruthy v then (if numGreater v (maxDimensions env) then Num 512 else v)
                    else width (params s))
   \<and> height (params (generateText2Img env d s))
     = (case img_height d of
          None \<Rightarrow> height (params s)
        | Some v \<Rightarrow> if numTruthy v then (if numGreater v (maxDimensions env) then Num 512 else v)
                    else height (params s))
   \<and> trace (generateText2Img env d s)
     = trace s @ [SetActiveCollapse [''2''], SetActiveIndex ''/'', RouterPush ''/'']
         @ warned env ''steps'' (img_steps d) (maxSteps env)
         @ warned env ''width'' (img_width d) (maxDimensions env)
         @ warned env ''height'' (img_height d) (maxDimensions env)
   \<and> maxSteps env = (if allowLargerParams env = ''Enabled'' then Num 500 else Num 50)
   \<and> maxDimensions env = (if allowLargerParams env = ''Enabled'' then Num 3072 else Num 1024)
   \<and> (divisibleBy64 (width (params s)) \<and> (\<forall>v. img_width d = Some v \<longrightarrow> divisibleBy64 v)
        \<longrightarrow> divisibleBy64 (width (params (generateText2Img env d s))))
   \<and> (divisibleBy64 (height (params s)) \<and> (\<forall>v. img_height d = Some v \<longrightarrow> divisibleBy64 v)
        \<longrightarrow> divisibleBy64 (height (params (generateText2Img env d s))))"
proof -
  have d: "divisibleBy64 (Num 512)"
    by (simp add: divisibleBy64_def)
  have a1: "steps (params (generateText2Img env d s))
     = (case img_steps d of
          None \<Rightarrow> steps (params s)
        | Some v \<Rightarrow> if numTruthy v then (if numGreater v (maxSteps env) then Num 30 else v)
                    else steps (params s))"
    by (simp add: generateText2Img_effect stored_def)
  have a2: "width (params (generateText2Img env d s))
     = (case img_width d of
          None \<Rightarrow> width (params s)
        | Some v \<Rightarrow> if numTruthy v then (if numGreater v (maxDimensions env) then Num 512 else v)
                    else width (params s))"
    by (simp add: generateText2Img_effect stored_def)
  have a3: "height (params (generateText2Img env d s))
     = (case img_height d of
          None \<Rightarrow> height (params s)
        | Some v \<Rightarrow> if numTruthy v then (if numGreater v (maxDimensions env) then Num 512 else v)
                    else height (params s))"
    by (simp add: generateText2Img_effect stored_def)
  have a4: "trace (generateText2Img env d s)
     = trace s @ [SetActiveCollapse [''2''], SetActiveIndex ''/'', RouterPush ''/'']
         @ warned env ''steps'' (img_steps d) (maxSteps env)
         @ warned env ''width'' (img_width d) (maxDimensions env)
         @ warned env ''height'' (img_height d) (maxDimensions env)"
    by (simp add: generateText2Img_effect)
  have a5: "maxSteps env = (if allowLargerParams env = ''Enabled'' then Num 500 else Num 50)"
    by (simp add: maxSteps_def)
  have a6: "maxDimensions env = (if allowLargerParams env = ''Enabled'' then Num 3072 else Num 1024)"
    by (simp add: maxDimensions_def)
  have a7: "divisibleBy64 (width (params s)) \<and> (\<forall>v. img_width d = Some v \<longrightarrow> divisibleBy64 v)
        \<longrightarrow> divisibleBy64 (width (params (generateText2Img env d s)))"
    using stored_divisible [OF d, of "width (params s)" "img_width d" "maxDimensions env"]
    by (simp add: generateText2Img_effect)
  have a8: "divisibleBy64 (height (params s)) \<and> (\<forall>v. img_height d = Some v \<longrightarrow> divisibleBy64 v)
        \<longrightarrow> divisibleBy64 (height (params (generateText2Img env d s)))"
    using stored_divisible [OF d, of "height (params s)" "img_height d" "maxDimensions env"]
    by (simp add: generateText2Img_effect)
  from a1 a2 a3 a4 a5 a6 a7 a8 show ?thesis
    by (intro conjI) assumption+
qed

theorem generateText2Img_range_validation_witness:
  "steps (params (generateText2Img quietEnv
      (sampleImageData\<lparr>img_steps := Some (Num 80), img_width := Some (Num 2048)\<rparr>) initialStore)) = Num 30
   \<and> width (params (generateText2Img quietEnv
      (sampleImageData\<lparr>img_steps := Some (Num 80), img_width := Some (Num 2048)\<rparr>) initialStore)) = Num 512
   \<and> height (params (generateText2Img quietEnv
      (sampleImageData\<lparr>img_steps := Some (Num 80), img_width := Some (Num 2048)\<rparr>) initialStore)) = Num 512
   \<and> trace (generateText2Img quietEnv
      (sampleImageData\<lparr>img_steps := Some (Num 80), img_width := Some (Num 2048)\<rparr>) initialStore)
     = [SetActiveCollapse [''2''], SetActiveIndex ''/'', RouterPush ''/'',
        RaiseWarning (largerValuesWarning quietEnv ''steps'' (Num 80)) True,
        RaiseWarning (largerValuesWarning quietEnv ''width'' (Num 2048)) True]
   \<and> divisibleBy64 (width (params initialStore)) \<and> divisibleBy64 (Num 2048)
   \<and> divisibleBy64 (width (params (generateText2Img quietEnv
      (sampleImageData\<lparr>img_steps := Some (Num 80), img_width := Some (Num 2048)\<rparr>) initialStore)))"
  using generateText2Img_range_validation [of quietEnv
      "sampleImageData\<lparr>img_steps := Some (Num 80), img_width := Some (Num 2048)\<rparr>" initialStore]
  by (simp add: sampleImageData_def quietEnv_def sampleEnv_def initialStore_def
        getDefaultStore_def warned_def divisibleBy64_def)

text \<open>
  The width 100 is within the cap: it is stored as given, and it is not divisible by 64.
\<close>

theorem generateText2Img_stores_indivisible_width:
  "width (params (generateText2Img quietEnv (sampleImageData\<lparr>img_width := Some (Num 100)\<rparr>)
      initialStore)) = Num 100
   \<and> \<not> divisibleBy64 (Num 100)
   \<and> \<not> numGreater (Num 100) (maxDimensions quietEnv)"
  by (simp add: generateText2Img_effect stored_def sampleImageData_def quietEnv_def sampleEnv_def
        maxDimensions_def divisibleBy64_def)

section \<open>Materialising results\<close>

lemma generationDone_result:
  "fst (generationDone env finalImages s)
     = map (toImageData env (getNewImageID env (outputs s))) finalImages"
  by (simp add: generationDone_def storeOutputs_def Let_def)

lemma generationDone_outputs:
  "outputs (snd (generationDone env finalImages s))
     = correctOutputIDs env (outputs s @ fst (generationDone env finalImages s))"
  by (simp add: generationDone_def storeOutputs_def Let_def emit_def)

lemma generationDone_flags:
  "images (snd (generationDone env finalImages s)) = fst (generationDone env finalImages s)"
  "generating (snd (generationDone env finalImages s)) = False"
  "cancelled (snd (generationDone env finalImages s)) = False"
  "queue (snd (generationDone env finalImages s)) = queue s"
  "trace (snd (generationDone env finalImages s)) = trace s @ [SetProgress 0]"
  by (simp_all add: generationDone_def storeOutputs_def Let_def emit_def)

lemma storeOutputs_result:
  "fst (storeOutputs env finalImages s) = fst (generationDone env finalImages s)"
  by (simp add: generationDone_def storeOutputs_def Let_def)

lemma storeOutputs_outputs:
  "outputs (snd (storeOutputs env finalImages s))
     = outputs s @ fst (generationDone env finalImages s)"
  by (simp add: generationDone_def storeOutputs_def Let_def)

lemma generationDone_corrects:
  "outputs (snd (generationDone env finalImages s))
     = correctOutputIDs env (outputs (snd (storeOutputs env finalImages s)))"
  by (simp add: generationDone_def storeOutputs_def Let_def)

lemma generationDone_entry:
  assumes "i < length finalImages"
  shows "fst (generationDone env finalImages s) ! i
           = toImageData env (getNewImageID env (outputs s)) (finalImages ! i)"
  using assms by (simp add: generationDone_result)

lemma toImageData_dimensions:
  assumes "gi_params (echoed img) = Some p"
  shows "img_width (toImageData env newID img)
           = Some (numTimes (width p)
               (if ''RealESRGAN_x4plus''
                     \<in> set (case post_processing p of None \<Rightarrow> [] | Some pp \<Rightarrow> pp)
                then 4 else 1))"
    and "img_height (toImageData env newID img)
           = Some (numTimes (height p)
               (if ''RealESRGAN_x4plus''
                     \<in> set (case post_processing p of None \<Rightarrow> [] | Some pp \<Rightarrow> pp)
                then 4 else 1))"
  using assms by (simp_all add: toImageData_def upscaleFactor_def)

lemma numTimes_finite:
  assumes "\<bar>w * 4\<bar> < 2 ^ 1024"
  shows "numTimes (Num w) 4 = Num (w * 4)" and "numTimes (Num w) 1 = Num w"
  using assms by auto

text \<open>
  C7 (as amended). For every list of finished job records and every store,
  \<^verbatim>\<open>generationDone\<close> converts each record, in order, into one gallery entry: the id read
  from the output store, the image as a base64 data URL, the prompt of the cached
  request, the seed of the generation, the steps, sampler and cfg scale of the cached
  parameters, and the cached width and height multiplied by 4 when the post-processing
  contains \<open>RealESRGAN_x4plus\<close> (by 1 otherwise; the product of a finite dimension is the
  exact one as long as it stays in the range of the doubles). It assigns the output
  collection the previous entries, unchanged and in their order, followed by exactly
  the new entries, and then calls the output store's \<^verbatim>\<open>correctOutputIDs\<close> on it. When
  that function rewrites ids only, the collection ends up as the previous entries, in
  their order and unchanged but for ids, followed by the new ones.
\<close>

theorem generationDone_appends_entries:
  "length (fst (generationDone env finalImages s)) = length finalImages
   \<and> images (snd (generationDone env finalImages s)) = fst (generationDone env finalImages s)
   \<and> (\<forall>i < length finalImages.
         img_id (fst (generationDone env finalImages s) ! i) = getNewImageID env (outputs s)
       \<and> image (fst (generationDone env finalImages s) ! i)
           = ''data:image/webp;base64,''
               @ toString (numberToString env) (getPropOpt (generation (finalImages ! i)) ''img'')
       \<and> img_prompt (fst (generationDone env finalImages s) ! i)
           = Some (gi_prompt (echoed (finalImages ! i)))
       \<and> img_seed (fst (generationDone env finalImages s) ! i)
           = getPropOpt (generation (finalImages ! i)) ''seed''
       \<and> \<not> starred (fst (generationDone env finalImages s) ! i)
       \<and> (\<forall>p. gi_params (echoed (finalImages ! i)) = Some p \<longrightarrow>
             img_steps (fst (generationDone env finalImages s) ! i) = Some (steps p)
           \<and> img_sampler_name (fst (generationDone env finalImages s) ! i)
               = Some (sampler_name p)
           \<and> img_cfg_scale (fst (generationDone env finalImages s) ! i) = Some (cfg_scale p)
           \<and> img_width (fst (generationDone env finalImages s) ! i)
               = Some (numTimes (width p)
                   (if ''RealESRGAN_x4plus''
                         \<in> set (case post_processing p of None \<Rightarrow> [] | Some pp \<Rightarrow> pp)
                    then 4 else 1))
           \<and> img_height (fst (generationDone env finalImages s) ! i)
               = Some (numTimes (height p)
                   (if ''RealESRGAN_x4plus''
                         \<in> set (case post_processing p of None \<Rightarrow> [] | Some pp \<Rightarrow> pp)
                    then 4 else 1))))
   \<and> (\<forall>w. \<bar>w * 4\<bar> < 2 ^ 1024 \<longrightarrow> numTimes (Num w) 4 = Num (w * 4) \<and> numTimes (Num w) 1 = Num w)
   \<and> outputs (snd (storeOutputs env finalImages s))
       = outputs s @ fst (generationDone env finalImages s)
   \<and> outputs (snd (generationDone env finalImages s))
       = correctOutputIDs env (outputs (snd (storeOutputs env finalImages s)))
   \<and> (rewritesIdsOnly env \<longrightarrow>
         length (outputs (snd (generationDone env finalImages s)))
           = length (outputs s) + length finalImages
       \<and> list_all2 sameButId
           (take (length (outputs s)) (outputs (snd (generationDone env finalImages s))))
           (outputs s)
       \<and> list_all2 sameButId
           (drop (length (outputs s)) (outputs (snd (generationDone env finalImages s))))
           (fst (generationDone env finalImages s)))"
proof -
  let ?new = "fst (generationDone env finalImages s)"
  have a1: "length ?new = length finalImages"
    by (simp add: generationDone_result)
  have a2: "images (snd (generationDone env finalImages s)) = ?new"
    by (rule generationDone_flags)
  have a3: "\<forall>i < length finalImages.
         img_id (?new ! i) = getNewImageID env (outputs s)
       \<and> image (?new ! i)
           = ''data:image/webp;base64,''
               @ toString (numberToString env) (getPropOpt (generation (finalImages ! i)) ''img'')
       \<and> img_prompt (?new ! i) = Some (gi_prompt (echoed (finalImages ! i)))
       \<and> img_seed (?new ! i) = getPropOpt (generation (finalImages ! i)) ''seed''
       \<and> \<not> starred (?new ! i)
       \<and> (\<forall>p. gi_params (echoed (finalImages ! i)) = Some p \<longrightarrow>
             img_steps (?new ! i) = Some (steps p)
           \<and> img_sampler_name (?new ! i) = Some (sampler_name p)
           \<and> img_cfg_scale (?new ! i) = Some (cfg_scale p)
           \<and> img_width (?new ! i)
               = Some (numTimes (width p)
                   (if ''RealESRGAN_x4plus''
                         \<in> set (case post_processing p of None \<Rightarrow> [] | Some pp \<Rightarrow> pp)
                    then 4 else 1))
           \<and> img_height (?new ! i)
               = Some (numTimes (height p)
                   (if ''RealESRGAN_x4plus''
                         \<in> set (case post_processing p of None \<Rightarrow> [] | Some pp \<Rightarrow> pp)
                    then 4 else 1)))"
  proof (intro allI impI)
    fix i assume i: "i < length finalImages"
    have e: "?new ! i = toImageData env (getNewImageID env (outputs s)) (finalImages ! i)"
      by (rule generationDone_entry [OF i])
    have f: "img_id (?new ! i) = getNewImageID env (outputs s)
       \<and> image (?new ! i)
           = ''data:image/webp;base64,''
               @ toString (numberToString env) (getPropOpt (generation (finalImages ! i)) ''img'')
       \<and> img_prompt (?new ! i) = Some (gi_prompt (echoed (finalImages ! i)))
       \<and> img_seed (?new ! i) = getPropOpt (generation (finalImages ! i)) ''seed''
       \<and> \<not> starred (?new ! i)"
      unfolding e by (simp add: toImageData_def)
    have g: "\<forall>p. gi_params (echoed (finalImages ! i)) = Some p \<longrightarrow>
             img_steps (?new ! i) = Some (steps p)
           \<and> img_sampler_name (?new ! i) = Some (sampler_name p)
           \<and> img_cfg_scale (?new ! i) = Some (cfg_scale p)
           \<and> img_width (?new ! i)
               = Some (numTimes (width p)
                   (if ''RealESRGAN_x4plus''
                         \<in> set (case post_processing p of None \<Rightarrow> [] | Some pp \<Rightarrow> pp)
                    then 4 else 1))
           \<and> img_height (?new ! i)
               = Some (numTimes (height p)
                   (if ''RealESRGAN_x4plus''
                         \<in> set (case post_processing p of None \<Rightarrow> [] | Some pp \<Rightarrow> pp)
                    then 4 else 1))"
      unfolding e using toImageData_dimensions [of "finalImages ! i"]
      by (simp add: toImageData_def)
    from f g show "img_id (?new ! i) = getNewImageID env (outputs s)
       \<and> image (?new ! i)
           = ''data:image/webp;base64,''
               @ toString (numberToString env) (getPropOpt (generation (finalImages ! i)) ''img'')
       \<and> img_prompt (?new ! i) = Some (gi_prompt (echoed (finalImages ! i)))
       \<and> img_seed (?new ! i) = getPropOpt (generation (finalImages ! i)) ''seed''
       \<and> \<not> starred (?new ! i)
       \<and> (\<forall>p. gi_params (echoed (finalImages ! i)) = Some p \<longrightarrow>
             img_steps (?new ! i) = Some (steps p)
           \<and> img_sampler_name (?new ! i) = Some (sampler_name p)
           \<and> img_cfg_scale (?new ! i) = Some (cfg_scale p)
           \<and> img_width (?new ! i)
               = Some (numTimes (width p)
                   (if ''RealESRGAN_x4plus''
                         \<in> set (case post_processing p of None \<Rightarrow> [] | Some pp \<Rightarrow> pp)
                    then 4 else 1))
           \<and> img_height (?new ! i)
               = Some (numTimes (height p)
                   (if ''RealESRGAN_x4plus''
                         \<in> set (case post_processing p of None \<Rightarrow> [] | Some pp \<Rightarrow> pp)
                    then 4 else 1)))"
      by simp
  qed
  have a4: "\<forall>w. \<bar>w * 4\<bar> < 2 ^ 1024 \<longrightarrow>
              numTimes (Num w) 4 = Num (w * 4) \<and> numTimes (Num w) 1 = Num w"
    using numTimes_finite by blast
  have a5: "outputs (snd (storeOutputs env finalImages s)) = outputs s @ ?new"
    by (rule storeOutputs_outputs)
  have a6: "outputs (snd (generationDone env finalImages s))
       = correctOutputIDs env (outputs (snd (storeOutputs env finalImages s)))"
    by (rule generationDone_corrects)
  have a7: "rewritesIdsOnly env \<longrightarrow>
         length (outputs (snd (generationDone env finalImages s)))
           = length (outputs s) + length finalImages
       \<and> list_all2 sameButId
           (take (length (outputs s)) (outputs (snd (generationDone env finalImages s))))
           (outputs s)
       \<and> list_all2 sameButId
           (drop (length (outputs s)) (outputs (snd (generationDone env finalImages s))))
           ?new"
  proof
    assume "rewritesIdsOnly env"
    then have l: "list_all2 sameButId (outputs (snd (generationDone env finalImages s)))
                    (outputs s @ ?new)"
      unfolding a6 a5 by (simp add: rewritesIdsOnly_def)
    have n: "length (outputs (snd (generationDone env finalImages s)))
           = length (outputs s) + length finalImages"
      using list_all2_lengthD [OF l] a1 by simp
    have t: "list_all2 sameButId
           (take (length (outputs s)) (outputs (snd (generationDone env finalImages s))))
           (outputs s)"
      using list_all2_takeI [OF l, of "length (outputs s)"] by simp
    have d: "list_all2 sameButId
           (drop (length (outputs s)) (outputs (snd (generationDone env finalImages s))))
           ?new"
      using list_all2_dropI [OF l, of "length (outputs s)"] by simp
    from n t d show "length (outputs (snd (generationDone env finalImages s)))
           = length (outputs s) + length finalImages
       \<and> list_all2 sameButId
           (take (length (outputs s)) (outputs (snd (generationDone env finalImages s))))
           (outputs s)
       \<and> list_all2 sameButId
           (drop (length (outputs s)) (outputs (snd (generationDone env finalImages s))))
           ?new"
      by (intro conjI)
  qed
  from a1 a2 a3 a4 a5 a6 a7 show ?thesis
    by (intro conjI) assumption+
qed

lemma rewritesIdsOnly_quietEnv: "rewritesIdsOnly quietEnv"
  by (simp add: rewritesIdsOnly_def quietEnv_def sampleEnv_def sameButId_def list_all2_same)

theorem generationDone_appends_entries_witness:
  "(0::nat) < length [\<lparr>generation = sampleGeneration, echoed = sampleInput []\<rparr>]
   \<and> gi_params (echoed \<lparr>generation = sampleGeneration, echoed = sampleInput []\<rparr>)
     = Some (getDefaultStore\<lparr>post_processing := Some []\<rparr>)
   \<and> rewritesIdsOnly quietEnv
   \<and> img_width (fst (generationDone quietEnv
        [\<lparr>generation = sampleGeneration, echoed = sampleInput []\<rparr>]
        (initialStore\<lparr>outputs := [sampleImageData]\<rparr>)) ! 0)
     = Some (Num 512)
   \<and> img_id (fst (generationDone quietEnv
        [\<lparr>generation = sampleGeneration, echoed = sampleInput []\<rparr>]
        (initialStore\<lparr>outputs := [sampleImageData]\<rparr>)) ! 0)
     = 1
   \<and> image (fst (generationDone quietEnv
        [\<lparr>generation = sampleGeneration, echoed = sampleInput []\<rparr>]
        (initialStore\<lparr>outputs := [sampleImageData]\<rparr>)) ! 0)
     = ''data:image/webp;base64,AAAA''
   \<and> length (outputs (snd (generationDone quietEnv
        [\<lparr>generation = sampleGeneration, echoed = sampleInput []\<rparr>]
        (initialStore\<lparr>outputs := [sampleImageData]\<rparr>)))) = 2
   \<and> list_all2 sameButId
        (take 1 (outputs (snd (generationDone quietEnv
           [\<lparr>generation = sampleGeneration, echoed = sampleInput []\<rparr>]
           (initialStore\<lparr>outputs := [sampleImageData]\<rparr>)))))
        [sampleImageData]"
proof -
  let ?f = "\<lparr>generation = sampleGeneration, echoed = sampleInput []\<rparr>"
  let ?s = "initialStore\<lparr>outputs := [sampleImageData]\<rparr>"
  note t = generationDone_appends_entries [of quietEnv "[?f]" ?s]
  have l: "(0::nat) < length [?f]"
    by simp
  have p: "gi_params (echoed ?f) = Some (getDefaultStore\<lparr>post_processing := Some []\<rparr>)"
    by (simp add: sampleInput_def)
  have e: "fst (generationDone quietEnv [?f] ?s) ! 0
             = toImageData quietEnv (getNewImageID quietEnv (outputs ?s)) ([?f] ! 0)"
    by (simp add: generationDone_result)
  note u = t [THEN conjunct2, THEN conjunct2, THEN conjunct1, rule_format, OF l]
  have i: "img_id (fst (generationDone quietEnv [?f] ?s) ! 0) = 1"
    using u [THEN conjunct1] by (simp add: quietEnv_def sampleEnv_def)
  have im: "image (fst (generationDone quietEnv [?f] ?s) ! 0) = ''data:image/webp;base64,AAAA''"
    using u [THEN conjunct2, THEN conjunct1]
    by (simp add: sampleGeneration_def getPropOpt_def)
  have "[?f] ! 0 = ?f"
    by simp
  then have p0: "gi_params (echoed ([?f] ! 0)) = Some (getDefaultStore\<lparr>post_processing := Some []\<rparr>)"
    using p by simp
  note v = u [THEN conjunct2, THEN conjunct2, THEN conjunct2, THEN conjunct2, THEN conjunct2,
              rule_format, OF p0]
  have w: "img_width (fst (generationDone quietEnv [?f] ?s) ! 0) = Some (Num 512)"
    using v [THEN conjunct2, THEN conjunct2, THEN conjunct2, THEN conjunct1]
    by (simp add: getDefaultStore_def)
  note fr = t [THEN conjunct2, THEN conjunct2, THEN conjunct2, THEN conjunct2, THEN conjunct2,
               THEN conjunct2, rule_format, OF rewritesIdsOnly_quietEnv]
  have n: "length (outputs (snd (generationDone quietEnv [?f] ?s))) = 2"
    using fr [THEN conjunct1] by simp
  have k: "list_all2 sameButId (take 1 (outputs (snd (generationDone quietEnv [?f] ?s))))
             [sampleImageData]"
    using fr [THEN conjunct2, THEN conjunct1] by simp
  from l p rewritesIdsOnly_quietEnv w i im n k show ?thesis
    by (intro conjI)
qed

text \<open>
  With the upscaler among the post-processors, a requested width of 512 gives a gallery
  entry of width 2048: the dimension is not echoed.
\<close>

theorem generationDone_upscaled_width_not_echoed:
  "map_option width (gi_params (sampleInput [''RealESRGAN_x4plus''])) = Some (Num 512)
   \<and> map img_width (fst (generationDone quietEnv
        [\<lparr>generation = sampleGeneration, echoed = sampleInput [''RealESRGAN_x4plus'']\<rparr>]
        initialStore))
     = [Some (Num 2048)]"
  by (simp add: generationDone_result toImageData_def upscaleFactor_def sampleInput_def
        getDefaultStore_def)


section \<open>The poll loop and the final loop\<close>

lemma pollLoop_invariant:
  assumes "pollLoop env n s = Some y"
  shows "loopFacts env s y"
proof (rule pollLoop.raw_induct [where P = "\<lambda>env n s y. loopFacts env s y", OF _ assms])
  fix loop env n s y
  assume ih: "\<And>env n s y. loop env n s = Some y \<Longrightarrow> loopFacts env s y"
    and eq: "(if \<not> list_all isDone (queue s) \<and> \<not> cancelled s
      then case pollJobs env [0..<length (queue s)] s of
           (Throw e, s1) \<Rightarrow> Some (Throw e, s1)
           | (Return (EarlyReturn r), s1) \<Rightarrow>
               Some (Return (EarlyReturn r), s1)
           | (Return (Completed u), s1) \<Rightarrow>
               loop env (Suc n)
                (sleep env 500
                  (emit
                    (UpdateProgress (map waitData (queue s1))
                      (Suc n))
                    s1))
      else Some (Return (Completed ()), s)) =
     Some y"
  show "loopFacts env s y"
  proof (cases "\<not> list_all isDone (queue s) \<and> \<not> cancelled s")
    case False
    then have y: "y = (Return (Completed ()), s)"
      using eq by auto
    have "\<exists>k. sleepsOf (trace s) = sleepsOf (trace s) @ replicate k (500::nat)"
      by (rule exI [of _ 0]) simp
    then show ?thesis using False unfolding y loopFacts_def by auto
  next
    case True
    obtain x s1 where p: "pollJobs env [0..<length (queue s)] s = (x, s1)"
      by (cases "pollJobs env [0..<length (queue s)] s") auto
    note any = pollJobs_any [OF p]
    have z: "\<exists>k. sleepsOf (trace s1) = sleepsOf (trace s) @ replicate k (500::nat)"
      using any by (intro exI [of _ 0]) simp
    show ?thesis
    proof (cases x)
      case (Throw e)
      then have y: "y = (Throw e, s1)"
        using eq True p by simp
      show ?thesis using any z unfolding y loopFacts_def by simp
    next
      case (Return f)
      show ?thesis
      proof (cases f)
        case (EarlyReturn r)
        then have y: "y = (Return (EarlyReturn r), s1)"
          using eq True p Return by simp
        show ?thesis using any z Return EarlyReturn unfolding y loopFacts_def by simp
      next
        case (Completed u)
        let ?s2 = "sleep env 500 (emit (UpdateProgress (map waitData (queue s1)) (Suc n)) s1)"
        have l: "loop env (Suc n) ?s2 = Some y"
          using eq True p Return Completed by simp
        have h: "loopFacts env ?s2 y"
          using ih [OF l] .
        have c: "map job_id (queue s1) = map job_id (queue s)" "generating s1 = generating s"
          using pollJobs_Completed [of env "[0..<length (queue s)]" s u s1] p Return Completed
          by simp_all
        have a1: "addsRequests (documentedEndpoint env) s s1"
          using any by simp
        have a2: "addsRequests (documentedEndpoint env) s1 ?s2"
          by (simp add: addsRequests_same)
        have a3: "addsRequests (documentedEndpoint env) ?s2 (snd y)"
          using h by (simp add: loopFacts_def)
        have a: "addsRequests (documentedEndpoint env) s (snd y)"
          using addsRequests_trans [OF a1 addsRequests_trans [OF a2 a3]] .
        obtain k where k: "sleepsOf (trace (snd y)) = sleepsOf (trace ?s2) @ replicate k 500"
          using h unfolding loopFacts_def by blast
        have s1: "sleepsOf (trace s1) = sleepsOf (trace s)"
          using any by simp
        have "sleepsOf (trace (snd y)) = sleepsOf (trace s) @ replicate (Suc k) 500"
          using k s1 by simp
        then have sl: "\<exists>k. sleepsOf (trace (snd y)) = sleepsOf (trace s) @ replicate k 500"
          by blast
        have o: "outputs (snd y) = outputs s"
          using h any by (simp add: loopFacts_def)
        have e: "\<forall>u. fst y = Return (Completed u) \<longrightarrow>
             (list_all isDone (queue (snd y)) \<or> cancelled (snd y))
             \<and> map job_id (queue (snd y)) = map job_id (queue s)
             \<and> generating (snd y) = generating s"
          using h c by (simp add: loopFacts_def)
        have f: "\<forall>r. fst y = Return (EarlyReturn r) \<longrightarrow>
            (\<exists>s1. r = fst (generationFailed env s1) \<and> snd y = snd (generationFailed env s1)
                 \<and> map job_id (queue s1) = map job_id (queue s))"
          using h c by (simp add: loopFacts_def)
        from a sl o e f show ?thesis
          unfolding loopFacts_def by (intro conjI) assumption+
      qed
    qed
  qed
qed


lemma getImageStatus_Return:
  assumes "getImageStatus env imageID s = (Return v, s')"
  shows "(truthy v \<longrightarrow> cancelled s \<longrightarrow> cancelled s')"
  using assms
  by (auto simp add: getImageStatus_def split: andThen_split_asm if_splits sum.splits
      dest!: fetch_frame response_json_frame validateResponse_result)

lemma collectImages_step:
  assumes "collectImages env (q # rest) acc s = (x, s')"
  obtains (threw) e where
      "(if cancelled s then cancelImage env (job_id q) s else getImageStatus env (job_id q) s)
         = (Throw e, s')" "x = Throw e"
  | (failed) v s1 where
      "(if cancelled s then cancelImage env (job_id q) s else getImageStatus env (job_id q) s)
         = (Return v, s1)" "\<not> truthy v"
      "x = Return (EarlyReturn (fst (generationFailed env s1)))" "s' = snd (generationFailed env s1)"
  | (notIterable) v e where
      "(if cancelled s then cancelImage env (job_id q) s else getImageStatus env (job_id q) s)
         = (Return v, s')" "truthy v" "spread v = Inl e" "x = Throw e"
  | (collected) v s1 xs where
      "(if cancelled s then cancelImage env (job_id q) s else getImageStatus env (job_id q) s)
         = (Return v, s1)" "truthy v" "spread v = Inr xs"
      "collectImages env rest (acc @ xs) s1 = (x, s')"
proof (cases "if cancelled s then cancelImage env (job_id q) s else getImageStatus env (job_id q) s")
  case (Pair a s1)
  show ?thesis
  proof (cases a)
    case (Throw e)
    then show ?thesis using assms Pair threw by simp
  next
    case (Return v)
    show ?thesis
    proof (cases "truthy v")
      case False
      then show ?thesis using assms Pair Return failed [of v s1] by simp
    next
      case True
      show ?thesis
      proof (cases "spread v")
        case (Inl e)
        then show ?thesis using assms Pair Return True notIterable [of v e] by simp
      next
        case (Inr xs)
        then show ?thesis using assms Pair Return True collected [of v s1 xs] by simp
      qed
    qed
  qed
qed

lemma finalRequest_requested:
  "requested (if cancelled s then cancelRequest env i else statusRequest env i) s
     (snd (if cancelled s then cancelImage env i s else getImageStatus env i s))"
  by (simp add: cancelImage_requested getImageStatus_requested)

lemma finalRequest_documented:
  "addsRequests (documentedEndpoint env) s
     (snd (if cancelled s then cancelImage env i s else getImageStatus env i s))"
  using addsRequests_requested [OF finalRequest_requested, of "documentedEndpoint env" s env i]
  by simp

lemma collectImages_any:
  assumes "collectImages env jobs acc s = (x, s')"
  shows "addsRequests (documentedEndpoint env) s s'
       \<and> sleepsOf (trace s') = sleepsOf (trace s) \<and> outputs s' = outputs s
       \<and> (queue s = [] \<longrightarrow> queue s' = [])
       \<and> (\<forall>r. x = Return (EarlyReturn r) \<longrightarrow>
            (\<exists>s1. r = fst (generationFailed env s1) \<and> s' = snd (generationFailed env s1)
                 \<and> queue s1 = queue s))
       \<and> (\<forall>a. x = Return (Completed a) \<longrightarrow> queue s' = queue s \<and> generating s' = generating s)"
  using assms
proof (induction jobs arbitrary: acc s)
  case Nil
  then show ?case by auto
next
  case (Cons q rest)
  let ?op = "if cancelled s then cancelImage env (job_id q) s else getImageStatus env (job_id q) s"
  have r: "requested (if cancelled s then cancelRequest env (job_id q) else statusRequest env (job_id q)) s (snd ?op)"
    by (rule finalRequest_requested)
  have d: "addsRequests (documentedEndpoint env) s (snd ?op)"
    by (rule finalRequest_documented)
  from Cons.prems show ?case
  proof (cases rule: collectImages_step)
    case (threw e)
    then show ?thesis using r d by (simp add: requested_def)
  next
    case (failed v s1)
    have b: "addsRequests (documentedEndpoint env) s1 s'"
      using failed(4) addsRequests_generationFailed by simp
    have a: "addsRequests (documentedEndpoint env) s s1"
      using d failed(1) by simp
    show ?thesis
      using addsRequests_trans [OF a b] r failed by (auto simp add: requested_def)
  next
    case (notIterable v e)
    then show ?thesis using r d by (simp add: requested_def)
  next
    case (collected v s1 xs)
    have a: "addsRequests (documentedEndpoint env) s s1"
      using d collected(1) by simp
    have q: "queue s1 = queue s" "sleepsOf (trace s1) = sleepsOf (trace s)"
      "outputs s1 = outputs s" "generating s1 = generating s"
      using r collected(1) by (simp_all add: requested_def)
    from Cons.IH [OF collected(4)] show ?thesis
      using addsRequests_trans [OF a] q by auto
  qed
qed


lemma collectImages_cancelled:
  assumes "collectImages env jobs acc s = (x, s')" and "cancelled s" and "queue s = []"
  shows "\<exists>k. k \<le> length jobs \<and> (jobs \<noteq> [] \<longrightarrow> 0 < k)
           \<and> requestsOf (trace s')
               = requestsOf (trace s) @ map (\<lambda>q. cancelRequest env (job_id q)) (take k jobs)
           \<and> (\<forall>a. x = Return (Completed a) \<longrightarrow> k = length jobs \<and> cancelled s')"
  using assms
proof (induction jobs arbitrary: acc s)
  case Nil
  then show ?case by auto
next
  case (Cons q rest)
  have r: "requested (cancelRequest env (job_id q)) s (snd (cancelImage env (job_id q) s))"
    by (rule cancelImage_requested)
  have one: "requestsOf (trace (snd (cancelImage env (job_id q) s)))
     = requestsOf (trace s) @ map (\<lambda>q. cancelRequest env (job_id q)) (take 1 (q # rest))"
    using r by (simp add: requested_def)
  from Cons.prems(1) show ?case
  proof (cases rule: collectImages_step)
    case (threw e)
    then show ?thesis
      using one Cons.prems(2) by (intro exI [of _ 1]) simp
  next
    case (failed v s1)
    have "queue s1 = []"
      using r failed(1) Cons.prems(2,3) by (simp add: requested_def)
    then have "requestsOf (trace s') = requestsOf (trace s1)"
      using failed(4) by simp
    then show ?thesis
      using one failed Cons.prems(2) by (intro exI [of _ 1]) simp
  next
    case (notIterable v e)
    then show ?thesis
      using one Cons.prems(2) by (intro exI [of _ 1]) simp
  next
    case (collected v s1 xs)
    have c: "cancelled s1"
      using cancelImage_Return [of env "job_id q" s v s1] collected(1,2) Cons.prems(2) by simp
    have q: "queue s1 = []"
      using r collected(1) Cons.prems(2,3) by (simp add: requested_def)
    obtain k where k: "k \<le> length rest"
        "requestsOf (trace s')
           = requestsOf (trace s1) @ map (\<lambda>q. cancelRequest env (job_id q)) (take k rest)"
        "\<forall>a. x = Return (Completed a) \<longrightarrow> k = length rest \<and> cancelled s'"
      using Cons.IH [OF collected(4) c q] by blast
    have "requestsOf (trace s')
           = requestsOf (trace s) @ map (\<lambda>q. cancelRequest env (job_id q)) (take (Suc k) (q # rest))"
      using k(2) one collected(1) Cons.prems(2) by simp
    then show ?thesis
      using k(1,3) by (intro exI [of _ "Suc k"]) simp
  qed
qed

lemma returned_simps [simp]:
  "returned (a, b) = (Return a, b)" "snd (returned p) = snd p" "fst (returned p) = Return (fst p)"
  by (simp_all add: returned_def)

lemma finishGeneration_Completed:
  assumes "collectImages env (queue s) [] (s\<lparr>queue := []\<rparr>) = (Return (Completed allImages), s1)"
  shows "finishGeneration env paramsCached s
           = returned (generationDone env
               (map (\<lambda>el. \<lparr>generation = el, echoed = paramsCached\<rparr>) allImages) s1)"
  using assms by (simp add: finishGeneration_def)

lemma finishGeneration_any:
  "queue (snd (finishGeneration env paramsCached s)) = []
   \<and> addsRequests (documentedEndpoint env) s (snd (finishGeneration env paramsCached s))
   \<and> sleepsOf (trace (snd (finishGeneration env paramsCached s))) = sleepsOf (trace s)"
proof -
  obtain x s1 where c: "collectImages env (queue s) [] (s\<lparr>queue := []\<rparr>) = (x, s1)"
    by (cases "collectImages env (queue s) [] (s\<lparr>queue := []\<rparr>)") auto
  note any = collectImages_any [OF c]
  have a0: "addsRequests (documentedEndpoint env) s (s\<lparr>queue := []\<rparr>)"
    by (simp add: addsRequests_same)
  have a: "addsRequests (documentedEndpoint env) s s1"
    using addsRequests_trans [OF a0] any by simp
  show ?thesis
  proof (cases x)
    case (Throw e)
    then show ?thesis using c any a by (simp add: finishGeneration_def)
  next
    case (Return f)
    show ?thesis
    proof (cases f)
      case (EarlyReturn r)
      then show ?thesis using c any a Return by (simp add: finishGeneration_def)
    next
      case (Completed allImages)
      have b: "addsRequests (documentedEndpoint env) s1
          (snd (generationDone env (map (\<lambda>el. \<lparr>generation = el, echoed = paramsCached\<rparr>) allImages) s1))"
        by (simp add: addsRequests_same generationDone_flags)
      show ?thesis
        using c any addsRequests_trans [OF a b] Return Completed
        by (simp add: finishGeneration_def generationDone_flags)
    qed
  qed
qed


lemma finishGeneration_Return:
  assumes "finishGeneration env paramsCached s = (Return r, s')"
  shows "\<not> generating s' \<and> queue s' = []"
proof -
  have q: "queue s' = []"
    using finishGeneration_any [of env paramsCached s] assms by simp
  obtain x s1 where c: "collectImages env (queue s) [] (s\<lparr>queue := []\<rparr>) = (x, s1)"
    by (cases "collectImages env (queue s) [] (s\<lparr>queue := []\<rparr>)") auto
  note any = collectImages_any [OF c]
  have "\<not> generating s'"
  proof (cases x)
    case (Throw e)
    then show ?thesis using c assms by (simp add: finishGeneration_def)
  next
    case (Return f)
    show ?thesis
    proof (cases f)
      case (EarlyReturn r')
      then show ?thesis using c any assms Return by (auto simp add: finishGeneration_def)
    next
      case (Completed allImages)
      then show ?thesis
        using c assms Return generationDone_flags(2)
        by (auto simp add: finishGeneration_def returned_def)
    qed
  qed
  then show ?thesis using q by simp
qed

lemma pollAndFinish_any:
  assumes "pollAndFinish env paramsCached s = Some (x, s')"
  shows "addsRequests (documentedEndpoint env) s s'
       \<and> (\<forall>r. x = Return r \<longrightarrow> \<not> generating s' \<and> queue s' = [])"
proof -
  obtain y where l: "pollLoop env 0 s = Some y"
    using assms by (cases "pollLoop env 0 s") (simp_all add: pollAndFinish_def)
  obtain a s2 where y: "y = (a, s2)"
    by (cases y) auto
  have f: "loopFacts env s (a, s2)"
    using pollLoop_invariant [OF l] y by simp
  then have a1: "addsRequests (documentedEndpoint env) s s2"
    by (simp add: loopFacts_def)
  show ?thesis
  proof (cases a)
    case (Throw e)
    then show ?thesis using assms l y a1 by (auto simp add: pollAndFinish_def)
  next
    case (Return fl)
    show ?thesis
    proof (cases fl)
      case (EarlyReturn r)
      then have "x = Return r" "s' = s2"
        using assms l y Return by (simp_all add: pollAndFinish_def)
      moreover have "\<exists>s1. r = fst (generationFailed env s1) \<and> s2 = snd (generationFailed env s1)"
        using f Return EarlyReturn by (auto simp add: loopFacts_def)
      ultimately show ?thesis using a1 by auto
    next
      case (Completed u)
      then have e: "finishGeneration env paramsCached s2 = (x, s')"
        using assms l y Return by (simp add: pollAndFinish_def)
      have a2: "addsRequests (documentedEndpoint env) s2 s'"
        using finishGeneration_any [of env paramsCached s2] e by simp
      show ?thesis
        using addsRequests_trans [OF a1 a2] finishGeneration_Return [of env paramsCached s2] e
        by auto
    qed
  qed
qed

lemma runGeneration_any:
  assumes "runGeneration env paramsCached s = Some (x, s')"
  shows "addsRequests (documentedEndpoint env) s s'
       \<and> (\<forall>r. x = Return r \<longrightarrow> \<not> generating s' \<and> queue s' = [])"
proof -
  let ?s0 = "s\<lparr>generating := True\<rparr>"
  obtain a s1 where n: "fetchNewID env paramsCached ?s0 = (a, s1)"
    by (cases "fetchNewID env paramsCached ?s0") auto
  have r: "requested (newIDRequest env paramsCached) ?s0 s1"
    using fetchNewID_requested [of env paramsCached ?s0] n by simp
  have a0: "addsRequests (documentedEndpoint env) s ?s0"
    by (simp add: addsRequests_same)
  have a1: "addsRequests (documentedEndpoint env) s s1"
    using addsRequests_trans [OF a0 addsRequests_requested [OF r]] by simp
  show ?thesis
  proof (cases a)
    case (Throw e)
    then show ?thesis using assms n a1 by (auto simp add: runGeneration_def)
  next
    case (Return resJSON)
    show ?thesis
    proof (cases "truthy resJSON")
      case False
      then have "x = Return []" "s' = snd (generationFailed env s1)"
        using assms n Return by (simp_all add: runGeneration_def returned_def)
      then show ?thesis
        using addsRequests_trans [OF a1 addsRequests_generationFailed [of env s1]] by simp
    next
      case True
      let ?s2 = "s1\<lparr> images := [],
                   queue := queue s1 @
                     [\<lparr>cached = paramsCached, job_id = getPropOpt resJSON ''id'',
                       waitData = JUndefined\<rparr>] \<rparr>"
      have p: "pollAndFinish env paramsCached ?s2 = Some (x, s')"
        using assms n Return True by (simp add: runGeneration_def)
      have a2: "addsRequests (documentedEndpoint env) s1 ?s2"
        by (simp add: addsRequests_same)
      show ?thesis
        using pollAndFinish_any [OF p] addsRequests_trans [OF a1 addsRequests_trans [OF a2]]
        by blast
    qed
  qed
qed

lemma loadSources_trace:
  "requestsOf (trace (snd (loadSources env ty s))) = requestsOf (trace s)"
  by (cases ty) (simp_all add: loadSources_def canvasSaveImages_def Let_def)

lemma generateImage_any:
  assumes "generateImage env ty s = Some (x, s')"
  shows "addsRequests (documentedEndpoint env) s s'"
proof (cases "prompt s = []")
  case True
  then show ?thesis using assms by (simp add: generateImage_def)
next
  case False
  obtain src s1 where l: "loadSources env ty s = (src, s1)"
    by (cases "loadSources env ty s") auto
  have a1: "addsRequests (documentedEndpoint env) s s1"
    using loadSources_trace [of env ty s] l by (simp add: addsRequests_same)
  show ?thesis
  proof (cases "chooseModel env s1")
    case (Inl e)
    then show ?thesis using assms False l a1 by (simp add: generateImage_def)
  next
    case (Inr model)
    then have "runGeneration env (cacheParameters env src model s1) s1 = Some (x, s')"
      using assms False l by (simp add: generateImage_def)
    from runGeneration_any [OF this] show ?thesis
      using addsRequests_trans [OF a1] by blast
  qed
qed


section \<open>The model registry\<close>

lemma fetch_json:
  "andThen (fetch env r s) (\<lambda>response s1. andThen (response_json env response s1) (k response))
     = (case respond env (clock s) r of
          None \<Rightarrow> (Throw NetworkError, tick env (emit (Http r) s))
        | Some response \<Rightarrow>
            (case body response of
               None \<Rightarrow> (Throw SyntaxError, tick env (tick env (emit (Http r) s)))
             | Some j \<Rightarrow> k response j (tick env (tick env (emit (Http r) s)))))"
  by (simp add: fetch_def response_json_def split: option.splits)

lemma mergeModelsDB_requests:
  "requestsOf (trace (snd (mergeModelsDB env live s)))
     = requestsOf (trace s) @ [modelsDBRequest env]"
  by (simp add: mergeModelsDB_def fetch_json split: option.splits sum.splits)

lemma updateAvailableModels_requests:
  "\<exists>rs. requestsOf (trace (snd (updateAvailableModels env s)))
          = requestsOf (trace s) @ modelsRequest env # rs
        \<and> (rs = [] \<or> rs = [modelsDBRequest env])"
proof (cases "respond env (clock s) (modelsRequest env)")
  case None
  then show ?thesis by (simp add: updateAvailableModels_def fetch_json)
next
  case (Some response)
  show ?thesis
  proof (cases "body response")
    case None
    then show ?thesis using Some by (simp add: updateAvailableModels_def fetch_json)
  next
    case (Some resJSON)
    let ?s2 = "tick env (tick env (emit (Http (modelsRequest env)) s))"
    have u: "updateAvailableModels env s
       = andThen (validateResponse env response resJSON (Single 200)
                ''Failed to get available models'' ?s2) (\<lambda>ok s3.
           if \<not> ok then (Return (), s3)
           else (case asActiveModels resJSON of
                   None \<Rightarrow> (Throw OutsideDeclaredType, s3)
                 | Some live \<Rightarrow> mergeModelsDB env (sortByCount live) s3))"
      using Some \<open>respond env (clock s) (modelsRequest env) = Some response\<close>
      by (simp add: updateAvailableModels_def fetch_json)
    show ?thesis
    proof (cases rule: validateResponse_cases
        [of response "Single 200" resJSON env "''Failed to get available models''" ?s2])
      case valid
      show ?thesis
      proof (cases "asActiveModels resJSON")
        case None
        then show ?thesis using u valid by simp
      next
        case (Some live)
        then show ?thesis using u valid by (simp add: mergeModelsDB_requests)
      qed
    next
      case (invalid m)
      then show ?thesis using u by simp
    next
      case throws
      then show ?thesis using u by simp
    qed
  qed
qed

text \<open>The record the merge loop builds for one database entry.\<close>

lemma modelRecord_ok:
  assumes "entry \<noteq> JNull" and "entry \<noteq> JUndefined"
  shows "modelRecord resJSON entry =
     Inr (case find (\<lambda>el. JStr (live_name el) = getPropOpt entry ''name'') resJSON of
            Some el \<Rightarrow>
              \<lparr> name = getPropOpt entry ''name'', count = Num (live_count el),
                performance = Num (live_performance el),
                description = getPropOpt entry ''description'',
                style = getPropOpt entry ''style'', nsfw = getPropOpt entry ''nsfw'',
                model_type = getPropOpt entry ''type'',
                eta = Num (live_eta el), queued = Num (live_queued el) \<rparr>
          | None \<Rightarrow>
              \<lparr> name = getPropOpt entry ''name'', count = Num 0, performance = Num 0,
                description = getPropOpt entry ''description'',
                style = getPropOpt entry ''style'', nsfw = getPropOpt entry ''nsfw'',
                model_type = getPropOpt entry ''type'',
                eta = Infinity, queued = Num 0 \<rparr>)"
proof -
  obtain v where v: "getProp entry ''name'' = Inr v"
    using getProp_Inr [OF assms] by blast
  then have "getPropOpt entry ''name'' = v"
    by (simp add: getPropOpt_def)
  then show ?thesis
    using v by (simp add: modelRecord_def split: option.splits)
qed

lemma buildModelsData_ok:
  assumes "\<forall>e \<in> set es. e \<noteq> JNull \<and> e \<noteq> JUndefined"
  shows "buildModelsData resJSON es
     = Inr (map (\<lambda>entry. case find (\<lambda>el. JStr (live_name el) = getPropOpt entry ''name'') resJSON of
            Some el \<Rightarrow>
              \<lparr> name = getPropOpt entry ''name'', count = Num (live_count el),
                performance = Num (live_performance el),
                description = getPropOpt entry ''description'',
                style = getPropOpt entry ''style'', nsfw = getPropOpt entry ''nsfw'',
                model_type = getPropOpt entry ''type'',
                eta = Num (live_eta el), queued = Num (live_queued el) \<rparr>
          | None \<Rightarrow>
              \<lparr> name = getPropOpt entry ''name'', count = Num 0, performance = Num 0,
                description = getPropOpt entry ''description'',
                style = getPropOpt entry ''style'', nsfw = getPropOpt entry ''nsfw'',
                model_type = getPropOpt entry ''type'',
                eta = Infinity, queued = Num 0 \<rparr>) es)"
  using assms
  by (induction es) (simp_all add: modelRecord_ok)

lemma find_None_live:
  "find (\<lambda>el. JStr (live_name el) = nm) (sortByCount live) = None
     \<longleftrightarrow> nm \<notin> (\<lambda>el. JStr (live_name el)) ` set live"
  by (auto simp add: find_None_iff sortByCount_def)

lemma find_Some_live:
  "find (\<lambda>el. JStr (live_name el) = nm) (sortByCount live) = Some el
     \<Longrightarrow> el \<in> set live \<and> JStr (live_name el) = nm"
proof -
  assume f: "find (\<lambda>el. JStr (live_name el) = nm) (sortByCount live) = Some el"
  then obtain i where i: "i < length (sortByCount live)" "sortByCount live ! i = el"
      "JStr (live_name el) = nm"
    by (auto simp add: find_Some_iff)
  have "el \<in> set (sortByCount live)"
    using i(1,2) nth_mem by blast
  then have "el \<in> set live"
    by (simp add: sortByCount_def)
  then show ?thesis using i(3) by simp
qed


lemma filter_distinct_map:
  "distinct (map f xs) \<Longrightarrow> x \<in> set xs \<Longrightarrow> length (filter (\<lambda>y. f y = f x) xs) = 1"
proof (induction xs)
  case Nil
  then show ?case by simp
next
  case (Cons a xs)
  show ?case
  proof (cases "f a = f x")
    case True
    then have "f x \<notin> f ` set xs"
      using Cons.prems(1) by simp
    then have "\<forall>y \<in> set xs. f y \<noteq> f x"
      by (metis imageI)
    then have "filter (\<lambda>y. f y = f x) xs = []"
      by (simp add: filter_empty_conv)
    then show ?thesis using True by simp
  next
    case False
    then have "x \<in> set xs"
      using Cons.prems(2) by auto
    then show ?thesis
      using Cons.IH Cons.prems(1) False by simp
  qed
qed

lemma name_mergedRecord [simp]: "name (mergedRecord resJSON entry) = getPropOpt entry ''name''"
  by (simp add: mergedRecord_def split: option.splits)

lemma asActiveModels_truthy: "asActiveModels j = Some live \<Longrightarrow> truthy j"
  by (cases j) simp_all

lemma updateAvailableModels_run:
  assumes "respond env (clock s) (modelsRequest env) = Some response"
    and "status response = 200" and "body response = Some resJSON"
    and "asActiveModels resJSON = Some live"
    and "respond env (Suc (Suc (clock s))) (modelsDBRequest env) = Some dbResponse"
    and "body dbResponse = Some (JObj kvs)"
    and "\<forall>kv \<in> set kvs. snd kv \<noteq> JNull \<and> snd kv \<noteq> JUndefined"
  shows "fst (updateAvailableModels env s) = Return ()"
    and "modelsData (snd (updateAvailableModels env s))
           = map (\<lambda>kv. mergedRecord (sortByCount live) (snd kv)) kvs"
    and "availableModels (snd (updateAvailableModels env s)) = modelOptions env (sortByCount live)"
proof -
  let ?s2 = "tick env (tick env (emit (Http (modelsRequest env)) s))"
  have v: "validateResponse env response resJSON (Single 200)
             ''Failed to get available models'' ?s2 = (Return True, ?s2)"
    using assms(2) asActiveModels_truthy [OF assms(4)] by (simp add: validateResponse_True)
  have u: "updateAvailableModels env s = mergeModelsDB env (sortByCount live) ?s2"
    using assms(1,3,4) v by (simp add: updateAvailableModels_def fetch_json)
  have b: "buildModelsData (sortByCount live) (map snd kvs)
     = Inr (map (\<lambda>kv. mergedRecord (sortByCount live) (snd kv)) kvs)"
    using buildModelsData_ok [of "map snd kvs" "sortByCount live"] assms(7)
    by (simp add: mergedRecord_def comp_def)
  have c: "clock (?s2\<lparr>availableModels := modelOptions env (sortByCount live)\<rparr>) = Suc (Suc (clock s))"
    by simp
  have m: "mergeModelsDB env (sortByCount live) ?s2
     = (Return (),
        (tick env (tick env (emit (Http (modelsDBRequest env))
           (?s2\<lparr>availableModels := modelOptions env (sortByCount live)\<rparr>))))
          \<lparr>modelsJSON := JObj kvs,
            modelsData := map (\<lambda>kv. mergedRecord (sortByCount live) (snd kv)) kvs\<rparr>)"
    using assms(5,6) b c by (simp add: mergeModelsDB_def fetch_json objectEntries_def)
  show "fst (updateAvailableModels env s) = Return ()"
    using u m by simp
  show "modelsData (snd (updateAvailableModels env s))
           = map (\<lambda>kv. mergedRecord (sortByCount live) (snd kv)) kvs"
    using u m by simp
  show "availableModels (snd (updateAvailableModels env s)) = modelOptions env (sortByCount live)"
    using u m by (simp add: tick_def emit_def)
qed


lemma mergedRecord_fields:
  "description (mergedRecord resJSON entry) = getPropOpt entry ''description''"
  "style (mergedRecord resJSON entry) = getPropOpt entry ''style''"
  "nsfw (mergedRecord resJSON entry) = getPropOpt entry ''nsfw''"
  "model_type (mergedRecord resJSON entry) = getPropOpt entry ''type''"
  by (simp_all add: mergedRecord_def split: option.splits)

lemma mergedRecord_live:
  "find (\<lambda>el. JStr (live_name el) = getPropOpt entry ''name'') resJSON = Some el \<Longrightarrow>
     count (mergedRecord resJSON entry) = Num (live_count el)
   \<and> performance (mergedRecord resJSON entry) = Num (live_performance el)
   \<and> eta (mergedRecord resJSON entry) = Num (live_eta el)
   \<and> queued (mergedRecord resJSON entry) = Num (live_queued el)"
  by (simp add: mergedRecord_def)

lemma mergedRecord_absent:
  "find (\<lambda>el. JStr (live_name el) = getPropOpt entry ''name'') resJSON = None \<Longrightarrow>
     count (mergedRecord resJSON entry) = Num 0
   \<and> performance (mergedRecord resJSON entry) = Num 0
   \<and> eta (mergedRecord resJSON entry) = Infinity
   \<and> queued (mergedRecord resJSON entry) = Num 0"
  by (simp add: mergedRecord_def)

text \<open>
  C6. When the live model list arrives with status 200 as an array of models and the
  static database arrives as an object whose entries are not null,
  \<^verbatim>\<open>updateAvailableModels\<close> completes and \<open>modelsData\<close> holds one record per database entry,
  in the order of the entries and under the entry's name, with the entry's description,
  style, nsfw and type; a record whose name is in the live list carries the count,
  performance, eta and queued values of a live model of that name (the first in
  descending order of count), any other record carries queued 0, eta Infinity, count 0
  and performance 0. When the names of the database are distinct, every one of them
  has exactly one record.
\<close>

theorem updateAvailableModels_merges:
  assumes "respond env (clock s) (modelsRequest env) = Some response"
    and "status response = 200" and "body response = Some resJSON"
    and "asActiveModels resJSON = Some live"
    and "respond env (Suc (Suc (clock s))) (modelsDBRequest env) = Some dbResponse"
    and "body dbResponse = Some (JObj kvs)"
    and "\<forall>kv \<in> set kvs. snd kv \<noteq> JNull \<and> snd kv \<noteq> JUndefined"
  shows "fst (updateAvailableModels env s) = Return ()
   \<and> map name (modelsData (snd (updateAvailableModels env s)))
       = map (\<lambda>kv. getPropOpt (snd kv) ''name'') kvs
   \<and> (\<forall>i < length kvs.
         description (modelsData (snd (updateAvailableModels env s)) ! i)
           = getPropOpt (snd (kvs ! i)) ''description''
       \<and> style (modelsData (snd (updateAvailableModels env s)) ! i)
           = getPropOpt (snd (kvs ! i)) ''style''
       \<and> nsfw (modelsData (snd (updateAvailableModels env s)) ! i)
           = getPropOpt (snd (kvs ! i)) ''nsfw''
       \<and> model_type (modelsData (snd (updateAvailableModels env s)) ! i)
           = getPropOpt (snd (kvs ! i)) ''type''
       \<and> (\<forall>el. find (\<lambda>el. JStr (live_name el) = getPropOpt (snd (kvs ! i)) ''name'')
                 (sortByCount live) = Some el \<longrightarrow>
             el \<in> set live \<and> JStr (live_name el) = getPropOpt (snd (kvs ! i)) ''name''
           \<and> count (modelsData (snd (updateAvailableModels env s)) ! i) = Num (live_count el)
           \<and> performance (modelsData (snd (updateAvailableModels env s)) ! i)
               = Num (live_performance el)
           \<and> eta (modelsData (snd (updateAvailableModels env s)) ! i) = Num (live_eta el)
           \<and> queued (modelsData (snd (updateAvailableModels env s)) ! i) = Num (live_queued el))
       \<and> (getPropOpt (snd (kvs ! i)) ''name'' \<in> (\<lambda>el. JStr (live_name el)) ` set live \<longrightarrow>
             find (\<lambda>el. JStr (live_name el) = getPropOpt (snd (kvs ! i)) ''name'')
               (sortByCount live) \<noteq> None)
       \<and> (getPropOpt (snd (kvs ! i)) ''name'' \<notin> (\<lambda>el. JStr (live_name el)) ` set live \<longrightarrow>
             queued (modelsData (snd (updateAvailableModels env s)) ! i) = Num 0
           \<and> eta (modelsData (snd (updateAvailableModels env s)) ! i) = Infinity
           \<and> count (modelsData (snd (updateAvailableModels env s)) ! i) = Num 0
           \<and> performance (modelsData (snd (updateAvailableModels env s)) ! i) = Num 0))
   \<and> (distinct (map (\<lambda>kv. getPropOpt (snd kv) ''name'') kvs) \<longrightarrow>
        (\<forall>kv \<in> set kvs.
           length (filter (\<lambda>r. name r = getPropOpt (snd kv) ''name'')
                     (modelsData (snd (updateAvailableModels env s)))) = 1))"
proof -
  let ?md = "modelsData (snd (updateAvailableModels env s))"
  let ?nm = "\<lambda>kv. getPropOpt (snd kv) ''name''"
  have r: "fst (updateAvailableModels env s) = Return ()"
    by (rule updateAvailableModels_run(1) [OF assms])
  have md: "?md = map (\<lambda>kv. mergedRecord (sortByCount live) (snd kv)) kvs"
    by (rule updateAvailableModels_run(2) [OF assms])
  have names: "map name ?md = map ?nm kvs"
    unfolding md by simp
  have each: "\<forall>i < length kvs.
         description (?md ! i) = getPropOpt (snd (kvs ! i)) ''description''
       \<and> style (?md ! i) = getPropOpt (snd (kvs ! i)) ''style''
       \<and> nsfw (?md ! i) = getPropOpt (snd (kvs ! i)) ''nsfw''
       \<and> model_type (?md ! i) = getPropOpt (snd (kvs ! i)) ''type''
       \<and> (\<forall>el. find (\<lambda>el. JStr (live_name el) = getPropOpt (snd (kvs ! i)) ''name'')
                 (sortByCount live) = Some el \<longrightarrow>
             el \<in> set live \<and> JStr (live_name el) = getPropOpt (snd (kvs ! i)) ''name''
           \<and> count (?md ! i) = Num (live_count el)
           \<and> performance (?md ! i) = Num (live_performance el)
           \<and> eta (?md ! i) = Num (live_eta el)
           \<and> queued (?md ! i) = Num (live_queued el))
       \<and> (getPropOpt (snd (kvs ! i)) ''name'' \<in> (\<lambda>el. JStr (live_name el)) ` set live \<longrightarrow>
             find (\<lambda>el. JStr (live_name el) = getPropOpt (snd (kvs ! i)) ''name'')
               (sortByCount live) \<noteq> None)
       \<and> (getPropOpt (snd (kvs ! i)) ''name'' \<notin> (\<lambda>el. JStr (live_name el)) ` set live \<longrightarrow>
             queued (?md ! i) = Num 0 \<and> eta (?md ! i) = Infinity
           \<and> count (?md ! i) = Num 0 \<and> performance (?md ! i) = Num 0)"
  proof (intro allI impI)
    fix i assume i: "i < length kvs"
    let ?e = "snd (kvs ! i)"
    have at: "?md ! i = mergedRecord (sortByCount live) ?e"
      using i by (simp add: md)
    have a: "\<forall>el. find (\<lambda>el. JStr (live_name el) = getPropOpt ?e ''name'')
                 (sortByCount live) = Some el \<longrightarrow>
             el \<in> set live \<and> JStr (live_name el) = getPropOpt ?e ''name''
           \<and> count (?md ! i) = Num (live_count el)
           \<and> performance (?md ! i) = Num (live_performance el)
           \<and> eta (?md ! i) = Num (live_eta el)
           \<and> queued (?md ! i) = Num (live_queued el)"
      using find_Some_live [of "getPropOpt ?e ''name''" live]
        mergedRecord_live [of ?e "sortByCount live"]
      unfolding at by blast
    have b: "getPropOpt ?e ''name'' \<in> (\<lambda>el. JStr (live_name el)) ` set live \<longrightarrow>
             find (\<lambda>el. JStr (live_name el) = getPropOpt ?e ''name'') (sortByCount live) \<noteq> None"
      using find_None_live [of "getPropOpt ?e ''name''" live] by blast
    have c: "getPropOpt ?e ''name'' \<notin> (\<lambda>el. JStr (live_name el)) ` set live \<longrightarrow>
             queued (?md ! i) = Num 0 \<and> eta (?md ! i) = Infinity
           \<and> count (?md ! i) = Num 0 \<and> performance (?md ! i) = Num 0"
      using find_None_live [of "getPropOpt ?e ''name''" live]
        mergedRecord_absent [of ?e "sortByCount live"]
      unfolding at by blast
    show "description (?md ! i) = getPropOpt ?e ''description''
       \<and> style (?md ! i) = getPropOpt ?e ''style''
       \<and> nsfw (?md ! i) = getPropOpt ?e ''nsfw''
       \<and> model_type (?md ! i) = getPropOpt ?e ''type''
       \<and> (\<forall>el. find (\<lambda>el. JStr (live_name el) = getPropOpt ?e ''name'')
                 (sortByCount live) = Some el \<longrightarrow>
             el \<in> set live \<and> JStr (live_name el) = getPropOpt ?e ''name''
           \<and> count (?md ! i) = Num (live_count el)
           \<and> performance (?md ! i) = Num (live_performance el)
           \<and> eta (?md ! i) = Num (live_eta el)
           \<and> queued (?md ! i) = Num (live_queued el))
       \<and> (getPropOpt ?e ''name'' \<in> (\<lambda>el. JStr (live_name el)) ` set live \<longrightarrow>
             find (\<lambda>el. JStr (live_name el) = getPropOpt ?e ''name'')
               (sortByCount live) \<noteq> None)
       \<and> (getPropOpt ?e ''name'' \<notin> (\<lambda>el. JStr (live_name el)) ` set live \<longrightarrow>
             queued (?md ! i) = Num 0 \<and> eta (?md ! i) = Infinity
           \<and> count (?md ! i) = Num 0 \<and> performance (?md ! i) = Num 0)"
      using a b c by (simp add: at mergedRecord_fields)
  qed
  have one: "distinct (map ?nm kvs) \<longrightarrow>
        (\<forall>kv \<in> set kvs. length (filter (\<lambda>r. name r = ?nm kv) ?md) = 1)"
  proof (intro impI ballI)
    fix kv assume d: "distinct (map ?nm kvs)" and k: "kv \<in> set kvs"
    have "filter (\<lambda>r. name r = ?nm kv) ?md
        = map (\<lambda>kv. mergedRecord (sortByCount live) (snd kv)) (filter (\<lambda>y. ?nm y = ?nm kv) kvs)"
      unfolding md by (simp add: filter_map comp_def)
    then show "length (filter (\<lambda>r. name r = ?nm kv) ?md) = 1"
      using filter_distinct_map [OF d k] by simp
  qed
  from r names each one show ?thesis
    by (intro conjI) assumption+
qed


theorem updateAvailableModels_merges_witness:
  "respond registryEnv (clock initialStore) (modelsRequest registryEnv)
     = Some \<lparr>status = 200, body = Some liveModelsBody\<rparr>
   \<and> asActiveModels liveModelsBody
     = Some [\<lparr>live_name = ''stable_diffusion'', live_count = 5, live_performance = 9,
               live_eta = 12, live_queued = 3\<rparr>,
             \<lparr>live_name = ''waifu'', live_count = 8, live_performance = 7,
               live_eta = 20, live_queued = 1\<rparr>]
   \<and> respond registryEnv (Suc (Suc (clock initialStore))) (modelsDBRequest registryEnv)
     = Some \<lparr>status = 200, body = Some (JObj modelsDBBody)\<rparr>
   \<and> fst (updateAvailableModels registryEnv initialStore) = Return ()
   \<and> map name (modelsData (snd (updateAvailableModels registryEnv initialStore)))
     = [JStr ''stable_diffusion'', JStr ''anything'']
   \<and> count (modelsData (snd (updateAvailableModels registryEnv initialStore)) ! 0) = Num 5
   \<and> eta (modelsData (snd (updateAvailableModels registryEnv initialStore)) ! 1) = Infinity"
proof -
  let ?live = "[\<lparr>live_name = ''stable_diffusion'', live_count = 5, live_performance = 9,
               live_eta = 12, live_queued = 3\<rparr>,
             \<lparr>live_name = ''waifu'', live_count = 8, live_performance = 7,
               live_eta = 20, live_queued = 1\<rparr>]"
  have h1: "respond registryEnv (clock initialStore) (modelsRequest registryEnv)
     = Some \<lparr>status = 200, body = Some liveModelsBody\<rparr>"
    by (simp add: registryEnv_def quietEnv_def sampleEnv_def modelsRequest_def)
  have h2: "status \<lparr>status = 200, body = Some liveModelsBody\<rparr> = 200"
    by simp
  have h3: "body \<lparr>status = 200, body = Some liveModelsBody\<rparr> = Some liveModelsBody"
    by simp
  have h4: "asActiveModels liveModelsBody = Some ?live"
    by (simp add: liveModelsBody_def)
  have h5: "respond registryEnv (Suc (Suc (clock initialStore))) (modelsDBRequest registryEnv)
     = Some \<lparr>status = 200, body = Some (JObj modelsDBBody)\<rparr>"
    by (simp add: registryEnv_def quietEnv_def sampleEnv_def modelsDBRequest_def)
  have h6: "body \<lparr>status = 200, body = Some (JObj modelsDBBody)\<rparr> = Some (JObj modelsDBBody)"
    by simp
  have h7: "\<forall>kv \<in> set modelsDBBody. snd kv \<noteq> JNull \<and> snd kv \<noteq> JUndefined"
    by (simp add: modelsDBBody_def)
  note t = updateAvailableModels_merges [OF h1 h2 h3 h4 h5 h6 h7]
  have s: "sortByCount ?live = rev ?live"
    by (simp add: sortByCount_def)
  have f0: "find (\<lambda>el. JStr (live_name el) = getPropOpt (snd (modelsDBBody ! 0)) ''name'')
              (sortByCount ?live) = Some (?live ! 0)"
    unfolding s by (simp add: modelsDBBody_def getPropOpt_def)
  have n1: "getPropOpt (snd (modelsDBBody ! 1)) ''name''
              \<notin> (\<lambda>el. JStr (live_name el)) ` set ?live"
    by (simp add: modelsDBBody_def getPropOpt_def)
  have l: "(0::nat) < length modelsDBBody" "(1::nat) < length modelsDBBody"
    by (simp_all add: modelsDBBody_def)
  have c0: "count (modelsData (snd (updateAvailableModels registryEnv initialStore)) ! 0) = Num 5"
    using t l(1) f0 by auto
  have e1: "eta (modelsData (snd (updateAvailableModels registryEnv initialStore)) ! 1) = Infinity"
    using t l(2) n1 by blast
  have nm: "map name (modelsData (snd (updateAvailableModels registryEnv initialStore)))
     = [JStr ''stable_diffusion'', JStr ''anything'']"
    using t by (simp add: modelsDBBody_def getPropOpt_def)
  from h1 h4 h5 t c0 e1 nm show ?thesis
    by (intro conjI) (assumption | simp)+
qed


section \<open>Two complete runs\<close>

text \<open>
  A generation that finishes at the second poll, and one the user cancels during the
  second poll, evaluated on the sample server.
\<close>

lemmas run_defs = generateImage_def catStore_def initialStore_def loadSources_def chooseModel_def
     runGeneration_def pollAndFinish_def cacheParameters_def getFullPrompt_def
     fetchNewID_def fetch_def response_json_def validateResponse_def newIDRequest_def
     sampleEnv_def sampleServer_def tick_def emit_def getDefaultStore_def getPropOpt_def
     pollLoop.simps isDone_def checkImage_def checkRequest_def sleep_def upt_rec
     finishGeneration_def getImageStatus_def cancelImage_def cancelRequest_def statusRequest_def
     returned_def generationDone_def storeOutputs_def sampleGeneration_def generationFailed_def cancelledStatus_def
     Let_def

lemma generateImage_sample_run:
  "\<exists>x s'. generateImage (sampleEnv 4 (\<lambda>t. False)) Text2Img catStore = Some (Return x, s')
     \<and> map req_method (requestsOf (trace s')) = [POST, GET, GET, GET]
     \<and> sleepsOf (trace s') = [500, 500]
     \<and> queue s' = [] \<and> \<not> generating s' \<and> length x = 1"
  by (simp add: run_defs)

lemma generateImage_cancelled_run:
  "\<exists>x s'. generateImage (sampleEnv 100 (\<lambda>t. t = 5)) Text2Img catStore = Some (Return x, s')
     \<and> map req_method (requestsOf (trace s')) = [POST, GET, GET, DELETE]
     \<and> queue s' = [] \<and> \<not> generating s' \<and> \<not> cancelled s'"
  by (simp add: run_defs)

section \<open>The endpoints\<close>

text \<open>
  C5. Each request function issues exactly one request, to its documented endpoint on
  the base URL with the documented method: \<^verbatim>\<open>fetchNewID\<close> POSTs to
  \<^verbatim>\<open>/api/v2/generate/async\<close>, \<^verbatim>\<open>checkImage\<close> GETs \<^verbatim>\<open>/api/v2/generate/check/:id\<close>,
  \<^verbatim>\<open>getImageStatus\<close> GETs and \<^verbatim>\<open>cancelImage\<close> DELETEs \<^verbatim>\<open>/api/v2/generate/status/:id\<close>;
  \<^verbatim>\<open>updateAvailableModels\<close> GETs \<^verbatim>\<open>/api/v2/status/models\<close> and then, at most, the model
  database at its fixed URL. Every request of a whole run of \<^verbatim>\<open>generateImage\<close>, however
  it ends, goes to a documented endpoint.
\<close>

theorem requests_target_documented_endpoints:
  "requestsOf (trace (snd (fetchNewID env p s)))
     = requestsOf (trace s)
         @ [\<lparr> req_method = POST, req_url = baseURL env @ ''/api/v2/generate/async'',
               req_headers = [(''Content-Type'', ''application/json''), (''apikey'', apiKey env)],
               req_body = Some p \<rparr>]
   \<and> requestsOf (trace (snd (checkImage env i s)))
     = requestsOf (trace s)
         @ [\<lparr> req_method = GET,
               req_url = baseURL env @ ''/api/v2/generate/check/'' @ toString (numberToString env) i,
               req_headers = [], req_body = None \<rparr>]
   \<and> requestsOf (trace (snd (getImageStatus env i s)))
     = requestsOf (trace s)
         @ [\<lparr> req_method = GET,
               req_url = baseURL env @ ''/api/v2/generate/status/'' @ toString (numberToString env) i,
               req_headers = [], req_body = None \<rparr>]
   \<and> requestsOf (trace (snd (cancelImage env i s)))
     = requestsOf (trace s)
         @ [\<lparr> req_method = DELETE,
               req_url = baseURL env @ ''/api/v2/generate/status/'' @ toString (numberToString env) i,
               req_headers = [], req_body = None \<rparr>]
   \<and> (\<exists>rs. requestsOf (trace (snd (updateAvailableModels env s)))
              = requestsOf (trace s)
                  @ \<lparr> req_method = GET, req_url = baseURL env @ ''/api/v2/status/models'',
                      req_headers = [], req_body = None \<rparr> # rs
            \<and> (rs = [] \<or> rs = [\<lparr> req_method = GET, req_url = MODELS_DB_URL env,
                                    req_headers = [], req_body = None \<rparr>]))
   \<and> (\<forall>x s'. generateImage env ty s = Some (x, s') \<longrightarrow>
         (\<exists>rs. requestsOf (trace s') = requestsOf (trace s) @ rs
               \<and> list_all (documentedEndpoint env) rs))"
proof -
  have a1: "requestsOf (trace (snd (fetchNewID env p s)))
     = requestsOf (trace s)
         @ [\<lparr> req_method = POST, req_url = baseURL env @ ''/api/v2/generate/async'',
               req_headers = [(''Content-Type'', ''application/json''), (''apikey'', apiKey env)],
               req_body = Some p \<rparr>]"
    using fetchNewID_requested [of env p s] by (simp add: requested_def newIDRequest_def)
  have a2: "requestsOf (trace (snd (checkImage env i s)))
     = requestsOf (trace s)
         @ [\<lparr> req_method = GET,
               req_url = baseURL env @ ''/api/v2/generate/check/'' @ toString (numberToString env) i,
               req_headers = [], req_body = None \<rparr>]"
    using checkImage_requested [of env i s] by (simp add: requested_def checkRequest_def)
  have a3: "requestsOf (trace (snd (getImageStatus env i s)))
     = requestsOf (trace s)
         @ [\<lparr> req_method = GET,
               req_url = baseURL env @ ''/api/v2/generate/status/'' @ toString (numberToString env) i,
               req_headers = [], req_body = None \<rparr>]"
    using getImageStatus_requested [of env i s] by (simp add: requested_def statusRequest_def)
  have a4: "requestsOf (trace (snd (cancelImage env i s)))
     = requestsOf (trace s)
         @ [\<lparr> req_method = DELETE,
               req_url = baseURL env @ ''/api/v2/generate/status/'' @ toString (numberToString env) i,
               req_headers = [], req_body = None \<rparr>]"
    using cancelImage_requested [of env i s] by (simp add: requested_def cancelRequest_def)
  have a5: "\<exists>rs. requestsOf (trace (snd (updateAvailableModels env s)))
              = requestsOf (trace s)
                  @ \<lparr> req_method = GET, req_url = baseURL env @ ''/api/v2/status/models'',
                      req_headers = [], req_body = None \<rparr> # rs
            \<and> (rs = [] \<or> rs = [\<lparr> req_method = GET, req_url = MODELS_DB_URL env,
                                    req_headers = [], req_body = None \<rparr>])"
    using updateAvailableModels_requests [of env s]
    by (simp add: modelsRequest_def modelsDBRequest_def)
  have a6: "\<forall>x s'. generateImage env ty s = Some (x, s') \<longrightarrow>
         (\<exists>rs. requestsOf (trace s') = requestsOf (trace s) @ rs
               \<and> list_all (documentedEndpoint env) rs)"
    using generateImage_any [of env ty s] by (simp add: addsRequests_def)
  from a1 a2 a3 a4 a5 a6 show ?thesis
    by (intro conjI) assumption+
qed

theorem requests_target_documented_endpoints_witness:
  "\<exists>x s'. generateImage (sampleEnv 4 (\<lambda>t. False)) Text2Img catStore = Some (Return x, s')
     \<and> map req_method (requestsOf (trace s')) = [POST, GET, GET, GET]
     \<and> (\<exists>rs. requestsOf (trace s') = requestsOf (trace catStore) @ rs
            \<and> list_all (documentedEndpoint (sampleEnv 4 (\<lambda>t. False))) rs)"
proof -
  from generateImage_sample_run show ?thesis
  proof (elim exE conjE)
    fix x s'
    assume r: "generateImage (sampleEnv 4 (\<lambda>t. False)) Text2Img catStore = Some (Return x, s')"
      and m: "map req_method (requestsOf (trace s')) = [POST, GET, GET, GET]"
    have d: "\<exists>rs. requestsOf (trace s') = requestsOf (trace catStore) @ rs
            \<and> list_all (documentedEndpoint (sampleEnv 4 (\<lambda>t. False))) rs"
      by (rule requests_target_documented_endpoints
            [THEN conjunct2, THEN conjunct2, THEN conjunct2, THEN conjunct2, THEN conjunct2,
             rule_format, OF r])
    from r m d have "generateImage (sampleEnv 4 (\<lambda>t. False)) Text2Img catStore = Some (Return x, s')
     \<and> map req_method (requestsOf (trace s')) = [POST, GET, GET, GET]
     \<and> (\<exists>rs. requestsOf (trace s') = requestsOf (trace catStore) @ rs
            \<and> list_all (documentedEndpoint (sampleEnv 4 (\<lambda>t. False))) rs)"
      by (intro conjI)
    then have "\<exists>s'. generateImage (sampleEnv 4 (\<lambda>t. False)) Text2Img catStore = Some (Return x, s')
     \<and> map req_method (requestsOf (trace s')) = [POST, GET, GET, GET]
     \<and> (\<exists>rs. requestsOf (trace s') = requestsOf (trace catStore) @ rs
            \<and> list_all (documentedEndpoint (sampleEnv 4 (\<lambda>t. False))) rs)"
      by (rule exI)
    then show ?thesis
      by (rule exI)
  qed
qed


section \<open>Failure of a generation\<close>













section \<open>The poll loop\<close>

lemma map_filter_nth:
  "map (\<lambda>i. f (xs ! i)) (filter (\<lambda>i. P (xs ! i)) [0..<length xs]) = map f (filter P xs)"
proof -
  have "map f (filter P xs) = map f (filter P (map (nth xs) [0..<length xs]))"
    by (simp add: map_nth)
  also have "\<dots> = map f (map (nth xs) (filter (P \<circ> nth xs) [0..<length xs]))"
    by (simp add: filter_map)
  also have "\<dots> = map (\<lambda>i. f (xs ! i)) (filter (\<lambda>i. P (xs ! i)) [0..<length xs])"
    by (simp add: comp_def)
  finally show ?thesis by simp
qed

lemma pollJobs_pass:
  assumes "pollJobs env [0..<length (queue s)] s = (Return (Completed u), s')"
  shows "requestsOf (trace s')
           = requestsOf (trace s)
               @ map (\<lambda>el. checkRequest env (job_id el)) (filter (\<lambda>el. \<not> isDone el) (queue s))
       \<and> sleepsOf (trace s') = sleepsOf (trace s)"
  using pollJobs_Completed [OF assms]
    map_filter_nth [of "\<lambda>el. checkRequest env (job_id el)" "queue s" "\<lambda>el. \<not> isDone el"]
  by simp

lemma pollLoop_iteration:
  assumes "\<not> list_all isDone (queue s)" and "\<not> cancelled s"
    and "pollJobs env [0..<length (queue s)] s = (Return (Completed u), s1)"
  shows "pollLoop env n s
           = pollLoop env (Suc n)
               (sleep env 500 (emit (UpdateProgress (map waitData (queue s1)) (Suc n)) s1))"
  using assms by (subst pollLoop.simps) simp

lemma pollLoop_exit:
  assumes "list_all isDone (queue s) \<or> cancelled s"
  shows "pollLoop env n s = Some (Return (Completed ()), s)"
  using assms by (subst pollLoop.simps) auto

lemma pollJobs_cancelled:
  assumes "cancelled s" and "distinct is" and "pollJobs env is s = (Return x, s')"
  shows "x = Completed () \<and> cancelled s'
       \<and> requestsOf (trace s')
           = requestsOf (trace s)
               @ map (\<lambda>i. checkRequest env (job_id (queue s ! i)))
                   (filter (\<lambda>i. \<not> isDone (queue s ! i)) is)"
proof -
  have x: "x = Completed ()"
    using pollJobs_any [OF assms(3)] assms(1) by simp
  then have "pollJobs env is s = (Return (Completed ()), s')"
    using assms(3) by simp
  from pollJobs_Completed [OF this assms(2)] show ?thesis
    using x assms(1) by simp
qed

lemma pollJobs_left:
  assumes "pollJobs env is s = (Return (EarlyReturn r), s')"
  shows "r = [] \<and> \<not> cancelled s' \<and> queue s' = [] \<and> \<not> generating s'"
  using assms
proof (induction "is" arbitrary: s)
  case Nil
  then show ?case by simp
next
  case (Cons i "is")
  show ?case
  proof (cases "isDone (queue s ! i)")
    case True
    then have "pollJobs env is s = (Return (EarlyReturn r), s')"
      using Cons.prems by simp
    from Cons.IH [OF this] show ?thesis .
  next
    case False
    from Cons.prems False show ?thesis
    proof (cases rule: pollJobs_step)
      case (threw e)
      then show ?thesis by simp
    next
      case (failed s1)
      then show ?thesis by simp
    next
      case (checked st s1)
      from Cons.IH [OF checked(3)] show ?thesis .
    qed
  qed
qed

lemma pollLoop_left:
  assumes "pollLoop env n s = Some y"
  shows "\<forall>r. fst y = Return (EarlyReturn r) \<longrightarrow>
           r = [] \<and> \<not> cancelled (snd y) \<and> queue (snd y) = [] \<and> \<not> generating (snd y)"
proof (rule pollLoop.raw_induct
    [where P = "\<lambda>env n s y. \<forall>r. fst y = Return (EarlyReturn r) \<longrightarrow>
           r = [] \<and> \<not> cancelled (snd y) \<and> queue (snd y) = [] \<and> \<not> generating (snd y)",
     OF _ assms])
  fix loop env n s y
  assume ih: "\<And>env n s y. loop env n s = Some y \<Longrightarrow>
      \<forall>r. fst y = Return (EarlyReturn r) \<longrightarrow>
           r = [] \<and> \<not> cancelled (snd y) \<and> queue (snd y) = [] \<and> \<not> generating (snd y)"
    and eq: "(if \<not> list_all isDone (queue s) \<and> \<not> cancelled s
      then case pollJobs env [0..<length (queue s)] s of
           (Throw e, s1) \<Rightarrow> Some (Throw e, s1)
           | (Return (EarlyReturn r), s1) \<Rightarrow>
               Some (Return (EarlyReturn r), s1)
           | (Return (Completed u), s1) \<Rightarrow>
               loop env (Suc n)
                (sleep env 500
                  (emit
                    (UpdateProgress (map waitData (queue s1))
                      (Suc n))
                    s1))
      else Some (Return (Completed ()), s)) =
     Some y"
  show "\<forall>r. fst y = Return (EarlyReturn r) \<longrightarrow>
           r = [] \<and> \<not> cancelled (snd y) \<and> queue (snd y) = [] \<and> \<not> generating (snd y)"
  proof (cases "\<not> list_all isDone (queue s) \<and> \<not> cancelled s")
    case False
    then have "y = (Return (Completed ()), s)"
      using eq by auto
    then show ?thesis by simp
  next
    case True
    obtain x s1 where p: "pollJobs env [0..<length (queue s)] s = (x, s1)"
      by (cases "pollJobs env [0..<length (queue s)] s") auto
    show ?thesis
    proof (cases x)
      case (Throw e)
      then have "y = (Throw e, s1)"
        using eq True p by simp
      then show ?thesis by simp
    next
      case (Return f)
      show ?thesis
      proof (cases f)
        case (EarlyReturn r)
        then have y: "y = (Return (EarlyReturn r), s1)"
          using eq True p Return by simp
        show ?thesis
          using pollJobs_left [of env "[0..<length (queue s)]" s r s1] p Return EarlyReturn
          unfolding y by simp
      next
        case (Completed u)
        have "loop env (Suc n)
                (sleep env 500 (emit (UpdateProgress (map waitData (queue s1)) (Suc n)) s1))
              = Some y"
          using eq True p Return Completed by simp
        from ih [OF this] show ?thesis .
      qed
    qed
  qed
qed

lemma pollLoop_outcomes:
  assumes "pollLoop env n s = Some y"
  shows "(\<exists>u. fst y = Return (Completed u)
              \<and> (list_all isDone (queue (snd y)) \<or> cancelled (snd y)))
       \<or> (fst y = Return (EarlyReturn [])
              \<and> cancelled (snd y) = False \<and> queue (snd y) = [] \<and> generating (snd y) = False)
       \<or> (\<exists>e. fst y = Throw e)"
proof (cases "fst y")
  case (Throw e)
  then show ?thesis by simp
next
  case (Return f)
  show ?thesis
  proof (cases f)
    case (EarlyReturn r)
    then show ?thesis
      using pollLoop_left [OF assms] Return by simp
  next
    case (Completed u)
    then show ?thesis
      using pollLoop_invariant [OF assms] Return by (simp add: loopFacts_def)
  qed
qed

lemma pollJobs_flag_in_pass:
  assumes "\<not> isDone (queue s ! i)"
    and "respond env (clock s) (checkRequest env (job_id (queue s ! i))) = Some response"
    and "body response = Some resJSON"
    and "cancelled s \<or> cancel_at env (clock s) \<or> cancel_at env (Suc (clock s))"
  shows "pollJobs env (i # is) s
           = pollJobs env is
               ((tick env (tick env (emit (Http (checkRequest env (job_id (queue s ! i)))) s)))
                  \<lparr>queue := (queue s)[i := (queue s ! i)\<lparr>waitData := cancelledStatus\<rparr>]\<rparr>)"
proof -
  let ?s2 = "tick env (tick env (emit (Http (checkRequest env (job_id (queue s ! i)))) s))"
  have c: "checkImage env (job_id (queue s ! i)) s = (Return cancelledStatus, ?s2)"
    using assms(2,3,4)
    by (auto simp add: checkImage_def fetch_def response_json_def tick_def emit_def)
  have t: "truthy cancelledStatus"
    by (simp add: cancelledStatus_def)
  show ?thesis
    using assms(1) c t by simp
qed

text \<open>
  C3 (as amended). A pass of the poll loop that completes has checked, in queue order,
  exactly the jobs whose \<open>done\<close> flag was not set, and has not slept. While some job is
  not done and the \<open>cancelled\<close> flag is not set, the loop runs such a pass, reports
  progress, sleeps 500 ms and starts over; every delay it adds to the trace is 500 ms.
  When the loop completes, every queued job reports done or the flag is set, and with
  either of the two holding at its head the loop completes at once. The loop is left in
  two more ways: a check that fails makes the function return the empty list through
  \<^verbatim>\<open>generationFailed\<close>, with the flag not set, and a check can throw. The flag never
  interrupts a pass: with the flag already set, the rest of a pass that gets its answers
  still checks every job that is not done and completes. The flag is read inside a pass
  all the same: a check whose JSON answer arrives with the flag set records the fixed
  not-done status in place of the server's, whatever the server answered, and the pass
  goes on.
\<close>

theorem poll_loop_polls_until_done_or_cancelled:
  "(\<forall>u s'. pollJobs env [0..<length (queue s)] s = (Return (Completed u), s') \<longrightarrow>
       requestsOf (trace s')
         = requestsOf (trace s)
             @ map (\<lambda>el. checkRequest env (job_id el)) (filter (\<lambda>el. \<not> isDone el) (queue s))
       \<and> sleepsOf (trace s') = sleepsOf (trace s))
   \<and> (\<forall>u s1. \<not> list_all isDone (queue s) \<and> \<not> cancelled s
         \<and> pollJobs env [0..<length (queue s)] s = (Return (Completed u), s1) \<longrightarrow>
       pollLoop env n s
         = pollLoop env (Suc n)
             (sleep env 500 (emit (UpdateProgress (map waitData (queue s1)) (Suc n)) s1)))
   \<and> (\<forall>ms x. trace (sleep env ms x) = trace x @ [Sleep ms])
   \<and> (\<forall>y. pollLoop env n s = Some y \<longrightarrow>
         (\<exists>k. sleepsOf (trace (snd y)) = sleepsOf (trace s) @ replicate k 500))
   \<and> (\<forall>u s'. pollLoop env n s = Some (Return (Completed u), s') \<longrightarrow>
         list_all isDone (queue s') \<or> cancelled s')
   \<and> (list_all isDone (queue s) \<or> cancelled s \<longrightarrow>
         pollLoop env n s = Some (Return (Completed ()), s))
   \<and> (\<forall>is x s'. cancelled s \<and> distinct is \<and> pollJobs env is s = (Return x, s') \<longrightarrow>
         x = Completed () \<and> cancelled s'
         \<and> requestsOf (trace s')
             = requestsOf (trace s)
                 @ map (\<lambda>i. checkRequest env (job_id (queue s ! i)))
                     (filter (\<lambda>i. \<not> isDone (queue s ! i)) is))
   \<and> (\<forall>y. pollLoop env n s = Some y \<longrightarrow>
         (\<exists>u. fst y = Return (Completed u)
              \<and> (list_all isDone (queue (snd y)) \<or> cancelled (snd y)))
         \<or> (fst y = Return (EarlyReturn [])
              \<and> cancelled (snd y) = False \<and> queue (snd y) = [] \<and> generating (snd y) = False)
         \<or> (\<exists>e. fst y = Throw e))
   \<and> (\<forall>i is response resJSON.
         \<not> isDone (queue s ! i)
         \<and> respond env (clock s) (checkRequest env (job_id (queue s ! i))) = Some response
         \<and> body response = Some resJSON
         \<and> (cancelled s \<or> cancel_at env (clock s) \<or> cancel_at env (Suc (clock s))) \<longrightarrow>
         pollJobs env (i # is) s
           = pollJobs env is
               ((tick env (tick env (emit (Http (checkRequest env (job_id (queue s ! i)))) s)))
                  \<lparr>queue := (queue s)[i := (queue s ! i)\<lparr>waitData := cancelledStatus\<rparr>]\<rparr>))"
proof -
  have a: "\<forall>u s'. pollJobs env [0..<length (queue s)] s = (Return (Completed u), s') \<longrightarrow>
       requestsOf (trace s')
         = requestsOf (trace s)
             @ map (\<lambda>el. checkRequest env (job_id el)) (filter (\<lambda>el. \<not> isDone el) (queue s))
       \<and> sleepsOf (trace s') = sleepsOf (trace s)"
    using pollJobs_pass [of env s] by blast
  have b: "\<forall>u s1. \<not> list_all isDone (queue s) \<and> \<not> cancelled s
         \<and> pollJobs env [0..<length (queue s)] s = (Return (Completed u), s1) \<longrightarrow>
       pollLoop env n s
         = pollLoop env (Suc n)
             (sleep env 500 (emit (UpdateProgress (map waitData (queue s1)) (Suc n)) s1))"
    using pollLoop_iteration [of s env _ _ n] by blast
  have c: "\<forall>ms x. trace (sleep env ms x) = trace x @ [Sleep ms]"
    by simp
  have d: "\<forall>y. pollLoop env n s = Some y \<longrightarrow>
         (\<exists>k. sleepsOf (trace (snd y)) = sleepsOf (trace s) @ replicate k 500)"
    using pollLoop_invariant [of env n s] by (simp add: loopFacts_def)
  have e: "\<forall>u s'. pollLoop env n s = Some (Return (Completed u), s') \<longrightarrow>
         list_all isDone (queue s') \<or> cancelled s'"
  proof (intro allI impI)
    fix u s' assume "pollLoop env n s = Some (Return (Completed u), s')"
    from pollLoop_invariant [OF this] show "list_all isDone (queue s') \<or> cancelled s'"
      by (simp add: loopFacts_def)
  qed
  have f: "list_all isDone (queue s) \<or> cancelled s \<longrightarrow>
         pollLoop env n s = Some (Return (Completed ()), s)"
    using pollLoop_exit [of s env n] by blast
  have g: "\<forall>is x s'. cancelled s \<and> distinct is \<and> pollJobs env is s = (Return x, s') \<longrightarrow>
         x = Completed () \<and> cancelled s'
         \<and> requestsOf (trace s')
             = requestsOf (trace s)
                 @ map (\<lambda>i. checkRequest env (job_id (queue s ! i)))
                     (filter (\<lambda>i. \<not> isDone (queue s ! i)) is)"
    using pollJobs_cancelled [of s _ env] by blast
  have h: "\<forall>y. pollLoop env n s = Some y \<longrightarrow>
         (\<exists>u. fst y = Return (Completed u)
              \<and> (list_all isDone (queue (snd y)) \<or> cancelled (snd y)))
         \<or> (fst y = Return (EarlyReturn [])
              \<and> cancelled (snd y) = False \<and> queue (snd y) = [] \<and> generating (snd y) = False)
         \<or> (\<exists>e. fst y = Throw e)"
    using pollLoop_outcomes [of env n s] by blast
  have i: "\<forall>i is response resJSON.
         \<not> isDone (queue s ! i)
         \<and> respond env (clock s) (checkRequest env (job_id (queue s ! i))) = Some response
         \<and> body response = Some resJSON
         \<and> (cancelled s \<or> cancel_at env (clock s) \<or> cancel_at env (Suc (clock s))) \<longrightarrow>
         pollJobs env (i # is) s
           = pollJobs env is
               ((tick env (tick env (emit (Http (checkRequest env (job_id (queue s ! i)))) s)))
                  \<lparr>queue := (queue s)[i := (queue s ! i)\<lparr>waitData := cancelledStatus\<rparr>]\<rparr>)"
  proof (intro allI impI, elim conjE)
    fix i "is" response resJSON
    assume "\<not> isDone (queue s ! i)"
      and "respond env (clock s) (checkRequest env (job_id (queue s ! i))) = Some response"
      and "body response = Some resJSON"
      and "cancelled s \<or> cancel_at env (clock s) \<or> cancel_at env (Suc (clock s))"
    then show "pollJobs env (i # is) s
           = pollJobs env is
               ((tick env (tick env (emit (Http (checkRequest env (job_id (queue s ! i)))) s)))
                  \<lparr>queue := (queue s)[i := (queue s ! i)\<lparr>waitData := cancelledStatus\<rparr>]\<rparr>)"
      by (rule pollJobs_flag_in_pass)
  qed
  from a b c d e f g h i show ?thesis
    by (intro conjI) assumption+
qed

lemma pollLoop_sample_run:
  "\<exists>s'. pollLoop (sampleEnv 4 (\<lambda>t. False)) 0 pollingStore = Some (Return (Completed ()), s')
     \<and> sleepsOf (trace s') = [500, 500, 500]
     \<and> map req_method (requestsOf (trace s')) = [GET, GET, GET]"
  by (simp add: pollingStore_def run_defs)

theorem poll_loop_polls_until_done_or_cancelled_witness:
  "\<exists>s'. pollLoop (sampleEnv 4 (\<lambda>t. False)) 0 pollingStore = Some (Return (Completed ()), s')
     \<and> sleepsOf (trace s') = [500, 500, 500]
     \<and> (list_all isDone (queue s') \<or> cancelled s')"
proof -
  from pollLoop_sample_run show ?thesis
  proof (elim exE conjE)
    fix s'
    assume r: "pollLoop (sampleEnv 4 (\<lambda>t. False)) 0 pollingStore = Some (Return (Completed ()), s')"
      and sl: "sleepsOf (trace s') = [500, 500, 500]"
    have d: "list_all isDone (queue s') \<or> cancelled s'"
      by (rule poll_loop_polls_until_done_or_cancelled
            [THEN conjunct2, THEN conjunct2, THEN conjunct2, THEN conjunct2, THEN conjunct1,
             rule_format, OF r])
    from r sl d
    have "pollLoop (sampleEnv 4 (\<lambda>t. False)) 0 pollingStore = Some (Return (Completed ()), s')
     \<and> sleepsOf (trace s') = [500, 500, 500]
     \<and> (list_all isDone (queue s') \<or> cancelled s')"
      by (intro conjI)
    then show ?thesis
      by (rule exI)
  qed
qed

text \<open>
  Against a server that answers every request with status 500, the loop is left at the
  first check although the queued job never reported done and the flag was never set.
  And with Cancel pressed while a check is in flight, the status recorded for the job
  is the fixed not-done record although the server reported the job done: the flag is
  observed inside the pass.
\<close>

theorem poll_loop_left_without_done_or_cancelled:
  "list_all isDone (queue pollingStore) = False
   \<and> cancelled pollingStore = False
   \<and> fst (the (pollLoop failingEnv 0 pollingStore)) = Return (EarlyReturn [])
   \<and> cancelled (snd (the (pollLoop failingEnv 0 pollingStore))) = False
   \<and> map req_method (requestsOf (trace (snd (the (pollLoop failingEnv 0 pollingStore)))))
       = [GET, DELETE]
   \<and> respond (pressedEnv 0 0) 0 (checkRequest (pressedEnv 0 0) (JStr ''job1''))
       = Some \<lparr>status = 200, body = Some (JObj [(''wait_time'', JNum 3), (''done'', JBool True)])\<rparr>
   \<and> map waitData (queue (snd (pollJobs (pressedEnv 0 0) [0] pollingStore))) = [cancelledStatus]
   \<and> truthy (getPropOpt cancelledStatus ''done'') = False"
  by (simp add: pollingStore_def failingEnv_def quietEnv_def pressedEnv_def onInvalidResponse_def
        run_defs)


section \<open>Cancellation\<close>


lemma finishGeneration_cancelled_completed:
  assumes "cancelled s"
    and "collectImages env (queue s) [] (s\<lparr>queue := []\<rparr>) = (Return (Completed allImages), s1)"
  shows "finishGeneration env paramsCached s
           = returned (generationDone env
               (map (\<lambda>el. \<lparr>generation = el, echoed = paramsCached\<rparr>) allImages) s1)
       \<and> requestsOf (trace (snd (finishGeneration env paramsCached s)))
           = requestsOf (trace s) @ map (\<lambda>q. cancelRequest env (job_id q)) (queue s)
       \<and> queue (snd (finishGeneration env paramsCached s)) = []"
proof -
  have c0: "cancelled (s\<lparr>queue := []\<rparr>)" "queue (s\<lparr>queue := []\<rparr>) = []"
    using assms(1) by simp_all
  have r: "requestsOf (trace s1)
         = requestsOf (trace s) @ map (\<lambda>q. cancelRequest env (job_id q)) (queue s)"
    using collectImages_cancelled [OF assms(2) c0] by auto
  have e: "finishGeneration env paramsCached s
           = returned (generationDone env
               (map (\<lambda>el. \<lparr>generation = el, echoed = paramsCached\<rparr>) allImages) s1)"
    by (rule finishGeneration_Completed [OF assms(2)])
  have "requestsOf (trace (snd (finishGeneration env paramsCached s))) = requestsOf (trace s1)"
    unfolding e by (simp add: generationDone_flags)
  then show ?thesis
    using e r finishGeneration_any [of env paramsCached s] by simp
qed
















end
